theory Spec2Isabelle
  imports Main "HOL-Library.Word"
begin

unbundle bit_operations_syntax

section \<open>The frame orchestrator of the DX12 project\<close>

text \<open>
  This theory embeds \<^verbatim>\<open>graphics/D3D.cpp\<close> (class \<^verbatim>\<open>dx::D3D\<close>) and the two shader
  functions of \<^verbatim>\<open>graphics/Shader.cpp\<close> in HOL. A member function becomes a function
  on a record of the members it reads and writes. The Direct3D 12 and DXGI objects the
  members point to (command queue, fence, command list, swap chain) are not code of the
  program; the part of their state the program can observe is kept in the same record,
  and every call into them is appended to a log of calls.

  The program checks most calls with \<^verbatim>\<open>assert(!call)\<close>. The embedding is that of a
  build in which \<^verbatim>\<open>assert\<close> evaluates its argument (no \<^verbatim>\<open>NDEBUG\<close>): the calls that
  create the command queue, the swap chain and the fence stand inside assertions, so
  in a build that drops them \<^verbatim>\<open>Initialize\<close> has nothing to work with. An assertion
  \<^verbatim>\<open>assert(!hr)\<close> passes when the returned \<^verbatim>\<open>HRESULT\<close> is 0 and ends the program
  otherwise.
\<close>

subsection \<open>Results of calls\<close>

type_synonym HRESULT = int

definition S_OK :: HRESULT where
  "S_OK = 0"

text \<open>\<^verbatim>\<open>0x887A0002\<close> as a signed 32-bit value.\<close>

definition DXGI_ERROR_NOT_FOUND :: HRESULT where
  "DXGI_ERROR_NOT_FOUND = - 2005270526"

definition FAILED :: "HRESULT \<Rightarrow> bool" where
  "FAILED hr = (hr < 0)"

definition SUCCEEDED :: "HRESULT \<Rightarrow> bool" where
  "SUCCEEDED hr = (0 \<le> hr)"

text \<open>The assertions of the program, named after the call they check.\<close>

datatype assertion =
    A_CreateCommandQueue
  | A_CreateCommandAllocator
  | A_CreateCommandList
  | A_CreateSwapChainForHwnd
  | A_CreateDescriptorHeap
  | A_GetBuffer
  | A_CreateFence
  | A_PrepareScene
  | A_AllocatorReset
  | A_GetShaders
  | A_ListReset
  | A_Close
  | A_Present
  | A_D3DCompileFromFile
  | A_inserted
  | A_CreateGraphicsPipelineState

text \<open>
  How a function can end without returning: a failed assertion, a call through a null
  interface pointer, a subscript outside an array or vector (both undefined behaviour
  in C++, kept apart from the assertions), or a wait that never ends.
\<close>

datatype failure =
    AssertionFailed assertion
  | NullPointerCall
  | OutOfBounds nat
  | WaitsForever

definition and_then :: "failure + 'a \<Rightarrow> ('a \<Rightarrow> failure + 'b) \<Rightarrow> failure + 'b" where
  "and_then m f = (case m of Inl e \<Rightarrow> Inl e | Inr x \<Rightarrow> f x)"

text \<open>\<^verbatim>\<open>assert(!hr)\<close>\<close>

definition assert_not :: "assertion \<Rightarrow> HRESULT \<Rightarrow> 'a \<Rightarrow> failure + 'a" where
  "assert_not a hr s = (if hr = 0 then Inr s else Inl (AssertionFailed a))"

subsection \<open>Devices, resources and recorded commands\<close>

datatype feature_level = D3D_FEATURE_LEVEL_11_1 | D3D_FEATURE_LEVEL_12_1

text \<open>An adapter is named by a number; \<open>None\<close> is the null adapter pointer.\<close>

type_synonym adapter = nat

datatype device = Device "adapter option" feature_level

datatype resource_state = D3D12_RESOURCE_STATE_PRESENT | D3D12_RESOURCE_STATE_RENDER_TARGET

text \<open>
  Modelled from the spec: \<^verbatim>\<open>FRAME_BUFFERS\<close> is defined in \<^verbatim>\<open>utils/Utility.hpp\<close>, which
  is not among the sources. The presentation ring of the spec has \<open>K\<close> back buffers,
  ``here 2'', and the comments of \<^verbatim>\<open>CreateRenderTargetsAndFences\<close> speak of ``our two
  back buffers''.
\<close>

definition FRAME_BUFFERS :: nat where
  "FRAME_BUFFERS = 2"

text \<open>
  Modelled from the spec: the classes of four helper calls of \<^verbatim>\<open>Render\<close> and
  \<^verbatim>\<open>BeginScene\<close> (\<^verbatim>\<open>RootSignature::SetRootSignature\<close>,
  \<^verbatim>\<open>DescriptorHeap::SetRootDescriptorTable\<close>, \<^verbatim>\<open>Model::BindBuffers\<close>, \<^verbatim>\<open>Model::Draw\<close>)
  and the scene preparation of \<^verbatim>\<open>Initialize\<close> are not among the sources. In the spec
  the binding of the layout (\<^verbatim>\<open>bindForDraw\<close>) comes after \<^verbatim>\<open>beginRecording\<close> and before
  the draw, and \<^verbatim>\<open>recordDraw\<close> records the draw with the layout already bound; none of
  them is said to record a transition of a back buffer or to submit. Each of these
  calls stands for what it records: \<open>SetRootSignature\<close>, \<open>SetRootDescriptorTable\<close>,
  \<open>BindBuffers\<close>, \<open>Draw\<close> and \<open>SceneUpload\<close>.

  The other commands are those \<^verbatim>\<open>D3D.cpp\<close> and \<^verbatim>\<open>Shader::SetTopology\<close> record. A back
  buffer of the swap chain is named by its number (a null resource pointer is \<open>None\<close>),
  a render target view by its slot in the descriptor heap
  (\<^verbatim>\<open>ptr = heap start + slot * increment\<close>).
\<close>

datatype cmd =
    SetRootSignature
  | RSSetViewports
  | RSSetScissorRects
  | ResourceBarrier "nat option" resource_state resource_state
  | OMSetRenderTargets nat
  | ClearRenderTargetView nat
  | IASetPrimitiveTopology
  | SetRootDescriptorTable nat
  | BindBuffers nat nat
  | Draw
  | SceneUpload

text \<open>What waits in the command queue for the GPU, in submission order.\<close>

datatype qitem = QExecute "cmd list" | QPresent | QSignal "64 word"

text \<open>The calls into Direct3D 12, DXGI and the helper classes, as logged.\<close>

datatype call =
    CreateDXGIFactory1 HRESULT
  | EnumAdapters1 nat HRESULT
  | D3D12CreateDevice "adapter option" feature_level HRESULT
  | CreateCommandQueue
  | CreateCommandAllocator
  | CreateCommandList
  | CreateSwapChainForHwnd nat
  | GetCurrentBackBufferIndex nat
  | CreateDescriptorHeap nat
  | GetBuffer nat
  | CreateRenderTargetView nat nat
  | CreateFence "64 word"
  | CreateEvent
  | AllocatorReset
  | ListReset
  | Record cmd
  | Close
  | ExecuteCommandLists "cmd list"
  | Present nat nat
  | Signal "64 word"
  | GetCompletedValue "64 word"
  | SetEventOnCompletion "64 word"
  | WaitForSingleObject
  | CloseHandle
  | TextureRelease
  | DeviceRelease

subsection \<open>The \<^verbatim>\<open>Shader\<close> class\<close>

text \<open>
  \<^verbatim>\<open>Shaders::ID\<close> and \<^verbatim>\<open>ShaderType\<close> are declared in headers that are not among the
  sources. An id is \<open>Triangle\<close> (the one \<^verbatim>\<open>D3D.cpp\<close> uses) or another one; a shader
  type is a bit mask, and the masks of the four stages are parameters.
\<close>

datatype Shaders_ID = Triangle | Other_ID nat

type_synonym ShaderType = "32 word"

record stages =
  VS :: ShaderType
  PS :: ShaderType
  GS :: ShaderType
  CS :: ShaderType

text \<open>A blob pointer is null (\<open>None\<close>) or points to the code compiled for an entry point.\<close>

type_synonym blob = "string option"

record ShaderData =
  type :: ShaderType
  blobs :: "blob list"
  pipelineState :: bool

text \<open>
  The map \<^verbatim>\<open>m_shaders\<close> of a \<^verbatim>\<open>Shader\<close> object (its \<^verbatim>\<open>insert\<close> returns a pair, so
  it holds one entry per id), and the calls of \<^verbatim>\<open>D3DCompileFromFile\<close> the object has
  made: path, entry point, target.
\<close>

record Shader =
  m_shaders :: "Shaders_ID \<rightharpoonup> ShaderData"
  compilations :: "(string \<times> string \<times> string) list"

subsection \<open>The state\<close>

text \<open>
  The members of \<^verbatim>\<open>D3D\<close> that the functions below read or write, followed by the
  state of the objects behind the interface pointers: the \<^verbatim>\<open>Shader\<close> object (the
  member \<^verbatim>\<open>m_shaders\<close> of \<^verbatim>\<open>D3D\<close>; the map of \<^verbatim>\<open>Shader\<close> has the name), the commands
  recorded in \<^verbatim>\<open>m_commandList\<close>, the work submitted to \<^verbatim>\<open>m_commandQueue\<close> that the
  GPU may not have finished, the completed value of \<^verbatim>\<open>m_fence\<close>, the buffer count and
  the current back buffer of \<^verbatim>\<open>m_swapChain\<close>, the views in
  \<^verbatim>\<open>m_renderTargetViewDescHeap\<close> by slot, and the log of calls. \<^verbatim>\<open>m_viewport\<close> and
  \<^verbatim>\<open>m_rect\<close> are plain data that \<^verbatim>\<open>CreateViewportAndScissorRect\<close> fills without a
  call; they are left out, and so is the function. Every interface pointer other than
  \<^verbatim>\<open>m_device\<close> and \<^verbatim>\<open>m_factory\<close> is created under an assertion before \<^verbatim>\<open>Initialize\<close>
  returns; the functions of a frame are those of an object on which it has returned.
\<close>

record D3D =
  m_device :: "device option"
  m_factory :: bool
  m_frameIndex :: nat
  m_fenceValue :: "64 word"
  m_backBufferRenderTarget :: "nat option list"
  shaders :: Shader
  commandList :: "cmd list"
  queue :: "qitem list"
  completedValue :: "64 word"
  BufferCount :: nat
  backBuffer :: nat
  renderTargetViews :: "nat \<rightharpoonup> nat option"
  calls :: "call list"

text \<open>
  A \<^verbatim>\<open>D3D\<close> object before \<^verbatim>\<open>Initialize\<close>: null pointers, nothing logged.
  \<^verbatim>\<open>m_frameIndex\<close> and \<^verbatim>\<open>m_fenceValue\<close> have no initializer; \<^verbatim>\<open>Initialize\<close> writes them
  before it reads them, so any value does.
\<close>

definition D3D_new :: D3D where
  "D3D_new = \<lparr> m_device = None, m_factory = False, m_frameIndex = 0, m_fenceValue = 0,
     m_backBufferRenderTarget = replicate FRAME_BUFFERS None,
     shaders = \<lparr> m_shaders = Map.empty, compilations = [] \<rparr>,
     commandList = [], queue = [], completedValue = 0, BufferCount = 0, backBuffer = 0,
     renderTargetViews = Map.empty, calls = [] \<rparr>"

definition log :: "call \<Rightarrow> D3D \<Rightarrow> D3D" where
  "log c s = s\<lparr>calls := calls s @ [c]\<rparr>"

text \<open>A command recorded in \<^verbatim>\<open>m_commandList\<close>.\<close>

definition record_cmd :: "cmd \<Rightarrow> D3D \<Rightarrow> D3D" where
  "record_cmd c s = log (Record c) (s\<lparr>commandList := commandList s @ [c]\<rparr>)"

subsection \<open>\<^verbatim>\<open>D3D::FindAndCreateDevice\<close>\<close>

text \<open>
  The machine the program runs on: whether the DXGI factory can be created, the
  adapters in enumeration order, and the result of creating a device on an adapter
  (\<open>None\<close>: no adapter preference) at a feature level. By the COM rules an interface
  out-parameter is null after a failed call, so a failed \<^verbatim>\<open>EnumAdapters1\<close> leaves
  \<^verbatim>\<open>adapter\<close> null and a failed \<^verbatim>\<open>D3D12CreateDevice\<close> leaves \<^verbatim>\<open>m_device\<close> null.
\<close>

record platform =
  CreateDXGIFactory1_hr :: HRESULT
  adapters :: "adapter list"
  D3D12CreateDevice_hr :: "adapter option \<Rightarrow> feature_level \<Rightarrow> HRESULT"

definition EnumAdapters1_call :: "platform \<Rightarrow> nat \<Rightarrow> D3D \<Rightarrow> HRESULT \<times> adapter option \<times> D3D" where
  "EnumAdapters1_call p i s =
     (if i < length (adapters p)
      then (S_OK, Some (adapters p ! i), log (EnumAdapters1 i S_OK) s)
      else (DXGI_ERROR_NOT_FOUND, None, log (EnumAdapters1 i DXGI_ERROR_NOT_FOUND) s))"

text \<open>\<^verbatim>\<open>D3D12CreateDevice(adapter, level, ..., m_device.GetAddressOf())\<close>\<close>

definition D3D12CreateDevice_call ::
  "platform \<Rightarrow> adapter option \<Rightarrow> feature_level \<Rightarrow> D3D \<Rightarrow> HRESULT \<times> D3D" where
  "D3D12CreateDevice_call p a l s =
     (let hr = D3D12CreateDevice_hr p a l
      in (hr, log (D3D12CreateDevice a l hr)
                (s\<lparr>m_device := if SUCCEEDED hr then Some (Device a l) else None\<rparr>)))"

text \<open>
  The loop \<^verbatim>\<open>for (UINT adapterIndex = 0;; ++adapterIndex)\<close>. It ends at the first index
  that is not an adapter's, so the index stays below \<open>2 ^ 32\<close> for every list of
  adapters a machine can have.
\<close>

function adapter_loop :: "platform \<Rightarrow> nat \<Rightarrow> D3D \<Rightarrow> adapter option \<times> D3D" where
  "adapter_loop p adapterIndex s =
     (case EnumAdapters1_call p adapterIndex s of
        (result, adapter, s1) \<Rightarrow>
          if FAILED result then (adapter, s1)
          else (case D3D12CreateDevice_call p adapter D3D_FEATURE_LEVEL_12_1 s1 of
                  (result, s2) \<Rightarrow>
                    if SUCCEEDED result then (adapter, s2)
                    else adapter_loop p (adapterIndex + 1) s2))"
  by pat_completeness auto
termination
  by (relation "measure (\<lambda>(p, i, s). length (adapters p) - i)")
     (auto simp: FAILED_def EnumAdapters1_call_def S_OK_def DXGI_ERROR_NOT_FOUND_def
           split: if_splits)

declare adapter_loop.simps [simp del]

definition FindAndCreateDevice :: "platform \<Rightarrow> D3D \<Rightarrow> bool \<times> D3D" where
  "FindAndCreateDevice p s =
     (let result = CreateDXGIFactory1_hr p;
          s0 = log (CreateDXGIFactory1 result) (s\<lparr>m_factory := SUCCEEDED result\<rparr>)
      in if FAILED result then (False, s0)
         else (case adapter_loop p 0 s0 of
                 (adapter, s1) \<Rightarrow>
                   if adapter \<noteq> None
                   then (case D3D12CreateDevice_call p adapter D3D_FEATURE_LEVEL_12_1 s1 of
                           (result, s2) \<Rightarrow> if FAILED result then (False, s2) else (True, s2))
                   else (case D3D12CreateDevice_call p adapter D3D_FEATURE_LEVEL_11_1 s1 of
                           (result, s2) \<Rightarrow> if FAILED result then (False, s2) else (True, s2))))"

subsection \<open>The GPU and the fence\<close>

text \<open>
  The GPU takes the items of the command queue in submission order; a signal sets the
  fence to its value. How far the GPU has come is not the program's choice: each
  function that reads the fence takes the number of items the GPU finishes before the
  read.
\<close>

fun gpu_item :: "qitem \<Rightarrow> 64 word \<Rightarrow> 64 word" where
  "gpu_item (QSignal v) c = v"
| "gpu_item (QExecute cs) c = c"
| "gpu_item QPresent c = c"

fun gpu_run :: "nat \<Rightarrow> D3D \<Rightarrow> D3D" where
  "gpu_run 0 s = s"
| "gpu_run (Suc n) s =
     (case queue s of
        [] \<Rightarrow> s
      | q # qs \<Rightarrow> gpu_run n (s\<lparr>queue := qs, completedValue := gpu_item q (completedValue s)\<rparr>))"

text \<open>
  \<^verbatim>\<open>SetEventOnCompletion(v, event)\<close> followed by
  \<^verbatim>\<open>WaitForSingleObject(event, INFINITE)\<close>: the thread goes on when the fence has
  reached \<open>v\<close>, and never if the queue runs empty before that. The result is the queue
  and the fence at that moment.
\<close>

fun gpu_wait :: "64 word \<Rightarrow> qitem list \<Rightarrow> 64 word \<Rightarrow> (qitem list \<times> 64 word) option" where
  "gpu_wait v [] c = (if v \<le> c then Some ([], c) else None)"
| "gpu_wait v (q # qs) c = (if v \<le> c then Some (q # qs, c) else gpu_wait v qs (gpu_item q c))"

subsection \<open>\<^verbatim>\<open>D3D::WaitForPreviousFrame\<close> and \<^verbatim>\<open>D3D::ExecuteCommandList\<close>\<close>

definition WaitForPreviousFrame :: "nat \<Rightarrow> D3D \<Rightarrow> failure + D3D" where
  "WaitForPreviousFrame gpu_progress s =
     (let fence = m_fenceValue s;
          s1 = log (Signal fence) (s\<lparr>queue := queue s @ [QSignal fence]\<rparr>);
          s2 = s1\<lparr>m_fenceValue := m_fenceValue s1 + 1\<rparr>;
          s3 = gpu_run gpu_progress s2;
          s4 = log (GetCompletedValue (completedValue s3)) s3
      in if completedValue s3 < fence
         then (case gpu_wait fence (queue s4) (completedValue s4) of
                 None \<Rightarrow> Inl WaitsForever
               | Some (qs, c) \<Rightarrow>
                   Inr (log WaitForSingleObject
                          (log (SetEventOnCompletion fence) (s4\<lparr>queue := qs, completedValue := c\<rparr>))))
         else Inr s4)"

definition ExecuteCommandList :: "HRESULT \<Rightarrow> D3D \<Rightarrow> failure + D3D" where
  "ExecuteCommandList close_hr s =
     and_then (assert_not A_Close close_hr (log Close s)) (\<lambda>s.
       Inr (log (ExecuteCommandLists (commandList s))
              (s\<lparr>queue := queue s @ [QExecute (commandList s)]\<rparr>)))"

subsection \<open>\<^verbatim>\<open>D3D::Render\<close>, \<^verbatim>\<open>D3D::BeginScene\<close>, \<^verbatim>\<open>D3D::EndScene\<close>\<close>

text \<open>
  What the runtime answers during one frame: the results of the four asserted calls,
  and how far the GPU has come when the fence is read.
\<close>

record frame =
  AllocatorReset_hr :: HRESULT
  ListReset_hr :: HRESULT
  Close_hr :: HRESULT
  Present_hr :: HRESULT
  progress :: nat

text \<open>\<^verbatim>\<open>Shader::GetShaders\<close>\<close>

definition GetShaders :: "Shaders_ID \<Rightarrow> Shader \<Rightarrow> failure + ShaderData" where
  "GetShaders sid sh =
     (case m_shaders sh sid of
        None \<Rightarrow> Inl (AssertionFailed A_GetShaders)
      | Some found \<Rightarrow> Inr found)"

text \<open>
  The subscript \<^verbatim>\<open>m_backBufferRenderTarget[m_frameIndex]\<close> of an array of
  \<^verbatim>\<open>FRAME_BUFFERS\<close> pointers.
\<close>

definition backBufferRenderTarget :: "D3D \<Rightarrow> failure + nat option" where
  "backBufferRenderTarget s =
     (if m_frameIndex s < length (m_backBufferRenderTarget s)
      then Inr (m_backBufferRenderTarget s ! m_frameIndex s)
      else Inl (OutOfBounds (m_frameIndex s)))"

text \<open>
  The pipeline state passed to the reset of the list is that of the \<open>Triangle\<close> entry;
  \<^verbatim>\<open>GetShaders\<close> asserts that the entry exists. The render target view handle is
  \<^verbatim>\<open>heap start + increment * m_frameIndex\<close>, the slot \<^verbatim>\<open>m_frameIndex\<close>; the increment
  is asked of \<^verbatim>\<open>m_device\<close>.
\<close>

definition BeginScene :: "frame \<Rightarrow> D3D \<Rightarrow> failure + D3D" where
  "BeginScene f s =
     and_then (assert_not A_AllocatorReset (AllocatorReset_hr f) (log AllocatorReset s)) (\<lambda>s.
     and_then (GetShaders Triangle (shaders s)) (\<lambda>found.
     and_then (assert_not A_ListReset (ListReset_hr f) (log ListReset (s\<lparr>commandList := []\<rparr>))) (\<lambda>s.
       let s = record_cmd SetRootSignature s;
           s = record_cmd RSSetViewports s;
           s = record_cmd RSSetScissorRects s
       in and_then (backBufferRenderTarget s) (\<lambda>target.
            let s = record_cmd (ResourceBarrier target D3D12_RESOURCE_STATE_PRESENT
                                  D3D12_RESOURCE_STATE_RENDER_TARGET) s
            in if m_device s = None then Inl NullPointerCall
               else
                 let renderTargetViewHandle = m_frameIndex s;
                     s = record_cmd (OMSetRenderTargets renderTargetViewHandle) s;
                     s = record_cmd (ClearRenderTargetView renderTargetViewHandle) s
                 in Inr s))))"

text \<open>
  \<^verbatim>\<open>Present(0, 0)\<close> on a flip-model swap chain: the presentation is queued and the
  current back buffer becomes the next of the ring.
\<close>

definition Present_call :: "D3D \<Rightarrow> D3D" where
  "Present_call s =
     log (Present 0 0)
       (s\<lparr>queue := queue s @ [QPresent], backBuffer := (backBuffer s + 1) mod BufferCount s\<rparr>)"

definition EndScene :: "frame \<Rightarrow> D3D \<Rightarrow> failure + D3D" where
  "EndScene f s =
     and_then (backBufferRenderTarget s) (\<lambda>target.
       let s = record_cmd (ResourceBarrier target D3D12_RESOURCE_STATE_RENDER_TARGET
                             D3D12_RESOURCE_STATE_PRESENT) s
       in and_then (ExecuteCommandList (Close_hr f) s) (\<lambda>s.
          and_then (assert_not A_Present (Present_hr f) (Present_call s)) (\<lambda>s.
          and_then (WaitForPreviousFrame (progress f) s) (\<lambda>s.
            Inr (log (GetCurrentBackBufferIndex (backBuffer s)) (s\<lparr>m_frameIndex := backBuffer s\<rparr>))))))"

definition Render :: "frame \<Rightarrow> D3D \<Rightarrow> failure + D3D" where
  "Render f s =
     and_then (BeginScene f s) (\<lambda>s.
       let s = record_cmd IASetPrimitiveTopology s;
           s = record_cmd (SetRootDescriptorTable 1) s;
           s = record_cmd (BindBuffers 0 (m_frameIndex s)) s;
           s = record_cmd Draw s
       in EndScene f s)"

subsection \<open>\<^verbatim>\<open>D3D::ShutDown\<close>\<close>

text \<open>
  \<^verbatim>\<open>Texture::Release\<close> is not among the sources; the call is logged. The last
  statement calls \<^verbatim>\<open>Release\<close> through \<^verbatim>\<open>m_device.Get()\<close>.
\<close>

definition ShutDown :: "nat \<Rightarrow> D3D \<Rightarrow> failure + D3D" where
  "ShutDown gpu_progress s =
     and_then (WaitForPreviousFrame gpu_progress s) (\<lambda>s.
       let s = log CloseHandle s;
           s = log TextureRelease s
       in if m_device s = None then Inl NullPointerCall
          else Inr (log DeviceRelease s))"

subsection \<open>\<^verbatim>\<open>D3D::Initialize\<close>\<close>

text \<open>
  What the runtime answers during \<^verbatim>\<open>Initialize\<close>: the machine, the results of the
  asserted creation calls, the outcome of the scene preparation (\<open>None\<close>: one of its
  assertions fails; otherwise the \<^verbatim>\<open>Shader\<close> object it leaves), the result of closing
  the command list, and how far the GPU has come when the fence is read.
\<close>

record startup =
  machine :: platform
  CreateCommandQueue_hr :: HRESULT
  CreateCommandAllocator_hr :: HRESULT
  CreateCommandList_hr :: HRESULT
  CreateSwapChainForHwnd_hr :: HRESULT
  CreateDescriptorHeap_hr :: HRESULT
  GetBuffer_hr :: "nat \<Rightarrow> HRESULT"
  CreateFence_hr :: HRESULT
  scene :: "Shader option"
  startup_Close_hr :: HRESULT
  startup_progress :: nat

text \<open>
  The swap chain is created with \<^verbatim>\<open>scDesc.BufferCount = FRAME_BUFFERS\<close>; its current
  back buffer is the first one.
\<close>

definition CreateCommandsAndSwapChain :: "startup \<Rightarrow> D3D \<Rightarrow> failure + D3D" where
  "CreateCommandsAndSwapChain e s =
     (if m_device s = None then Inl NullPointerCall
      else
        and_then (assert_not A_CreateCommandQueue (CreateCommandQueue_hr e)
                    (log CreateCommandQueue (s\<lparr>queue := []\<rparr>))) (\<lambda>s.
        and_then (assert_not A_CreateCommandAllocator (CreateCommandAllocator_hr e)
                    (log CreateCommandAllocator s)) (\<lambda>s.
        and_then (assert_not A_CreateCommandList (CreateCommandList_hr e)
                    (log CreateCommandList (s\<lparr>commandList := []\<rparr>))) (\<lambda>s.
          if \<not> m_factory s then Inl NullPointerCall
          else assert_not A_CreateSwapChainForHwnd (CreateSwapChainForHwnd_hr e)
                 (log (CreateSwapChainForHwnd FRAME_BUFFERS)
                    (s\<lparr>BufferCount := FRAME_BUFFERS, backBuffer := 0\<rparr>))))))"

text \<open>
  The loop \<^verbatim>\<open>for (unsigned i = 0; i < FRAME_BUFFERS; ++i)\<close> with its running descriptor
  handle, kept as a slot number.
\<close>

function back_buffer_loop :: "startup \<Rightarrow> nat \<Rightarrow> nat \<Rightarrow> D3D \<Rightarrow> failure + D3D" where
  "back_buffer_loop e i renderTargetViewHandle s =
     (if i < FRAME_BUFFERS
      then (case assert_not A_GetBuffer (GetBuffer_hr e i)
                   (log (GetBuffer i)
                      (s\<lparr>m_backBufferRenderTarget := (m_backBufferRenderTarget s)[i := Some i]\<rparr>)) of
              Inl x \<Rightarrow> Inl x
            | Inr s1 \<Rightarrow>
                back_buffer_loop e (i + 1) (renderTargetViewHandle + 1)
                  (log (CreateRenderTargetView i renderTargetViewHandle)
                     (s1\<lparr>renderTargetViews := (renderTargetViews s1)
                           (renderTargetViewHandle \<mapsto> m_backBufferRenderTarget s1 ! i)\<rparr>)))
      else Inr s)"
  by pat_completeness auto
termination
  by (relation "measure (\<lambda>(e, i, h, s). FRAME_BUFFERS - i)") auto

declare back_buffer_loop.simps [simp del]

text \<open>
  The fence is created with the value 0 (\<^verbatim>\<open>CreateFence(0, ...)\<close>) and the counter starts
  at 1. The event \<^verbatim>\<open>CreateEvent\<close> returns is not checked; whether it is a valid handle
  makes no difference to when \<^verbatim>\<open>WaitForPreviousFrame\<close> returns
  (\<^verbatim>\<open>SetEventOnCompletion\<close> with a null handle waits by itself), so the handle is not
  kept.
\<close>

definition CreateRenderTargetsAndFences :: "startup \<Rightarrow> D3D \<Rightarrow> failure + D3D" where
  "CreateRenderTargetsAndFences e s =
     (let s = log (GetCurrentBackBufferIndex (backBuffer s)) (s\<lparr>m_frameIndex := backBuffer s\<rparr>)
      in if m_device s = None then Inl NullPointerCall
         else
           and_then (assert_not A_CreateDescriptorHeap (CreateDescriptorHeap_hr e)
                       (log (CreateDescriptorHeap FRAME_BUFFERS)
                          (s\<lparr>renderTargetViews := Map.empty\<rparr>))) (\<lambda>s.
           and_then (back_buffer_loop e 0 0 s) (\<lambda>s.
           and_then (assert_not A_CreateFence (CreateFence_hr e)
                       (log (CreateFence 0) (s\<lparr>completedValue := 0\<rparr>))) (\<lambda>s.
             Inr (log CreateEvent (s\<lparr>m_fenceValue := 1\<rparr>))))))"

text \<open>
  Modelled from the spec: lines 41 to 72 of \<^verbatim>\<open>Initialize\<close> prepare the scene through
  the constructors of the helper classes, \<^verbatim>\<open>Shader::LoadShaders\<close>,
  \<^verbatim>\<open>Texture::LoadTexture\<close>, \<^verbatim>\<open>RootSignature::CreateRootSignature\<close>, a
  \<^verbatim>\<open>CreateInputLayoutAndPipelineState\<close> of three arguments,
  \<^verbatim>\<open>DescriptorHeap::CreateDescriptorHeap\<close> and \<^verbatim>\<open>Texture::CreateSRVFromTexture\<close>, none
  of which is among the sources. In the spec a compilation or asset failure is ``fatal
  at load time'', and the resources are ``created at startup''. So the preparation
  either fails an assertion or leaves a \<^verbatim>\<open>Shader\<close> object and its uploads recorded in
  the open command list.
\<close>

definition PrepareScene :: "startup \<Rightarrow> D3D \<Rightarrow> failure + D3D" where
  "PrepareScene e s =
     (case scene e of
        None \<Rightarrow> Inl (AssertionFailed A_PrepareScene)
      | Some sh \<Rightarrow> Inr (record_cmd SceneUpload (s\<lparr>shaders := sh\<rparr>)))"

text \<open>\<^verbatim>\<open>Initialize\<close> drops the value \<^verbatim>\<open>FindAndCreateDevice\<close> returns.\<close>

definition Initialize :: "startup \<Rightarrow> D3D \<Rightarrow> failure + D3D" where
  "Initialize e s =
     and_then (CreateCommandsAndSwapChain e (snd (FindAndCreateDevice (machine e) s))) (\<lambda>s.
     and_then (CreateRenderTargetsAndFences e s) (\<lambda>s.
     and_then (PrepareScene e s) (\<lambda>s.
     and_then (ExecuteCommandList (startup_Close_hr e) s) (\<lambda>s.
       WaitForPreviousFrame (startup_progress e) s))))"

subsection \<open>The frame loop\<close>

text \<open>
  The loop that calls \<^verbatim>\<open>Render\<close> once per frame is the caller's. A session is
  \<^verbatim>\<open>Initialize\<close> on a new object followed by the frames.
\<close>

fun Frames :: "frame list \<Rightarrow> D3D \<Rightarrow> failure + D3D" where
  "Frames [] s = Inr s"
| "Frames (f # fs) s = and_then (Render f s) (Frames fs)"

definition Session :: "startup \<Rightarrow> frame list \<Rightarrow> failure + D3D" where
  "Session e fs = and_then (Initialize e D3D_new) (Frames fs)"

subsection \<open>\<^verbatim>\<open>Shader::LoadShadersFromFile\<close> and \<^verbatim>\<open>Shader::CreateInputLayoutAndPipelineState\<close>\<close>

text \<open>\<^verbatim>\<open>std::vector::resize\<close> on a vector of blob pointers: new elements are null.\<close>

definition resize :: "nat \<Rightarrow> blob list \<Rightarrow> blob list" where
  "resize n xs = take n xs @ replicate (n - length xs) None"

text \<open>
  \<^verbatim>\<open>assert(!D3DCompileFromFile(path, ..., entry, target, ..., data.blobs[i].GetAddressOf(), nullptr))\<close>.
  The compiler is a parameter: the result of the call for a path and an entry point.
\<close>

definition compile_blob ::
  "(string \<Rightarrow> string \<Rightarrow> HRESULT) \<Rightarrow> string \<Rightarrow> string \<Rightarrow> string \<Rightarrow> nat \<Rightarrow>
   ShaderData \<times> Shader \<Rightarrow> failure + ShaderData \<times> Shader" where
  "compile_blob D3DCompileFromFile_hr shaderPath entry target i ds =
     (case ds of (data, sh) \<Rightarrow>
        if length (blobs data) \<le> i then Inl (OutOfBounds i)
        else assert_not A_D3DCompileFromFile (D3DCompileFromFile_hr shaderPath entry)
               (data\<lparr>blobs := (blobs data)
                       [i := if SUCCEEDED (D3DCompileFromFile_hr shaderPath entry) then Some entry else None]\<rparr>,
                sh\<lparr>compilations := compilations sh @ [(shaderPath, entry, target)]\<rparr>))"

definition LoadShadersFromFile ::
  "stages \<Rightarrow> (string \<Rightarrow> string \<Rightarrow> HRESULT) \<Rightarrow> Shaders_ID \<Rightarrow> string \<Rightarrow> ShaderType \<Rightarrow>
   Shader \<Rightarrow> failure + Shader" where
  "LoadShadersFromFile st D3DCompileFromFile_hr sid shaderPath ty sh =
     and_then
       (if ty = VS st OR PS st
        then and_then
               (compile_blob D3DCompileFromFile_hr shaderPath ''VS_MAIN'' ''vs_5_1'' 0
                  (\<lparr>type = ty, blobs = resize 2 [], pipelineState = False\<rparr>, sh))
               (compile_blob D3DCompileFromFile_hr shaderPath ''PS_MAIN'' ''ps_5_1'' 1)
        else if ty = CS st
        then compile_blob D3DCompileFromFile_hr shaderPath ''CS_MAIN'' ''cs_5_1'' 0
               (\<lparr>type = ty, blobs = resize 1 [], pipelineState = False\<rparr>, sh)
        else Inr (\<lparr>type = ty, blobs = [], pipelineState = False\<rparr>, sh))
       (\<lambda>(data, sh).
          if m_shaders sh sid = None
          then Inr (sh\<lparr>m_shaders := (m_shaders sh)(sid \<mapsto> data)\<rparr>)
          else Inl (AssertionFailed A_inserted))"

text \<open>
  \<^verbatim>\<open>CD3DX12_SHADER_BYTECODE(found->second.blobs[i].Get())\<close>: the subscript, which
  \<^verbatim>\<open>operator[]\<close> does not check, and then the constructor, which calls
  \<^verbatim>\<open>GetBufferPointer\<close> and \<^verbatim>\<open>GetBufferSize\<close> through the blob pointer it is given. A
  subscript outside the vector and a null blob pointer are undefined behaviour, here
  the failures \<open>OutOfBounds\<close> and \<open>NullPointerCall\<close>.
\<close>

definition shader_bytecode :: "blob list \<Rightarrow> nat \<Rightarrow> failure + string" where
  "shader_bytecode bs i =
     (if length bs \<le> i then Inl (OutOfBounds i)
      else (case bs ! i of None \<Rightarrow> Inl NullPointerCall | Some code \<Rightarrow> Inr code))"

text \<open>
  \<^verbatim>\<open>find\<close> is not compared with \<^verbatim>\<open>end()\<close>: an id without an entry is undefined
  behaviour too, here \<open>NullPointerCall\<close>. The shader byte codes are read in program
  order: 0 for the vertex shader, 1 for the pixel shader, and 2 for the geometry shader
  when the type is \<^verbatim>\<open>VS | GS | PS\<close>. \<open>shader_device\<close> is the member \<^verbatim>\<open>m_device\<close> of the
  \<^verbatim>\<open>Shader\<close> object, the pointer its constructor was given; the pipeline state is
  created through it. The two calls of \<^verbatim>\<open>Reset\<close> at the end leave null blob pointers.
\<close>

definition CreateInputLayoutAndPipelineState ::
  "stages \<Rightarrow> device option \<Rightarrow> HRESULT \<Rightarrow> Shaders_ID \<Rightarrow> Shader \<Rightarrow> failure + Shader" where
  "CreateInputLayoutAndPipelineState st shader_device CreateGraphicsPipelineState_hr sid sh =
     (case m_shaders sh sid of
        None \<Rightarrow> Inl NullPointerCall
      | Some found \<Rightarrow>
          and_then (shader_bytecode (blobs found) 0) (\<lambda>vs.
          and_then (shader_bytecode (blobs found) 1) (\<lambda>ps.
          and_then (if type found = VS st OR GS st OR PS st
                    then shader_bytecode (blobs found) 2 else Inr []) (\<lambda>gs.
            if shader_device = None then Inl NullPointerCall
            else assert_not A_CreateGraphicsPipelineState CreateGraphicsPipelineState_hr
                   (sh\<lparr>m_shaders := (m_shaders sh)
                         (sid \<mapsto> found\<lparr>pipelineState := CreateGraphicsPipelineState_hr = 0,
                                        blobs := (blobs found)[0 := None, 1 := None]\<rparr>)\<rparr>)))))"

section \<open>Notions the properties are stated with\<close>

subsection \<open>Device creation\<close>

text \<open>The device creation calls of a log: adapter, feature level, result.\<close>

definition device_creations :: "call list \<Rightarrow> (adapter option \<times> feature_level \<times> HRESULT) list" where
  "device_creations cs =
     concat (map (\<lambda>c. case c of D3D12CreateDevice a l hr \<Rightarrow> [(a, l, hr)] | _ \<Rightarrow> []) cs)"

text \<open>An adapter qualifies when a device of feature level 12.1 can be created on it.\<close>

definition qualifies :: "platform \<Rightarrow> adapter \<Rightarrow> bool" where
  "qualifies p a = SUCCEEDED (D3D12CreateDevice_hr p (Some a) D3D_FEATURE_LEVEL_12_1)"

definition attempt ::
  "platform \<Rightarrow> adapter option \<Rightarrow> feature_level \<Rightarrow> adapter option \<times> feature_level \<times> HRESULT" where
  "attempt p a l = (a, l, D3D12CreateDevice_hr p a l)"

text \<open>A machine with three adapters, of which the second and the third qualify.\<close>

definition machine0 :: platform where
  "machine0 = \<lparr> CreateDXGIFactory1_hr = 0, adapters = [7, 8, 9],
      D3D12CreateDevice_hr = (\<lambda>a l. if a = Some 8 \<or> a = Some 9 then 0 else - 1) \<rparr>"

subsection \<open>Shaders\<close>

text \<open>Four stage masks of one bit each, and a \<^verbatim>\<open>Shader\<close> object without entries.\<close>

definition stages0 :: stages where
  "stages0 = \<lparr> VS = 1, PS = 2, GS = 4, CS = 8 \<rparr>"

definition Shader_new :: Shader where
  "Shader_new = \<lparr> m_shaders = Map.empty, compilations = [] \<rparr>"

text \<open>A compiler that compiles every file, and one that compiles none (\<^verbatim>\<open>E_FAIL\<close>).\<close>

definition E_FAIL :: HRESULT where
  "E_FAIL = - 2147467259"

definition compiler_ok :: "string \<Rightarrow> string \<Rightarrow> HRESULT" where
  "compiler_ok shaderPath entry = S_OK"

definition compiler_fails :: "string \<Rightarrow> string \<Rightarrow> HRESULT" where
  "compiler_fails shaderPath entry = E_FAIL"

text \<open>A device for the \<^verbatim>\<open>Shader\<close> object.\<close>

definition device0 :: device where
  "device0 = Device (Some 8) D3D_FEATURE_LEVEL_12_1"

text \<open>The run ended at a subscript outside a vector.\<close>

definition out_of_bounds :: "failure + 'a \<Rightarrow> bool" where
  "out_of_bounds r = (case r of Inl (OutOfBounds i) \<Rightarrow> True | _ \<Rightarrow> False)"

subsection \<open>The fence\<close>

text \<open>The values signalled in a log, in order.\<close>

definition signals :: "call list \<Rightarrow> 64 word list" where
  "signals cs = concat (map (\<lambda>c. case c of Signal v \<Rightarrow> [v] | _ \<Rightarrow> []) cs)"

text \<open>
  The calls of \<^verbatim>\<open>WaitForPreviousFrame\<close> after its signal of \<open>v\<close>, when the fence reads
  \<open>c\<close>: the waiting calls are made when \<open>c < v\<close>.
\<close>

definition fence_calls :: "64 word \<Rightarrow> 64 word \<Rightarrow> call list" where
  "fence_calls c v =
     GetCompletedValue c # (if c < v then [SetEventOnCompletion v, WaitForSingleObject] else [])"

text \<open>No signal is among the items.\<close>

definition no_signal :: "qitem list \<Rightarrow> bool" where
  "no_signal qs = list_all (\<lambda>q. case q of QSignal v \<Rightarrow> False | _ \<Rightarrow> True) qs"

subsection \<open>Frames\<close>

text \<open>
  The commands of one frame for the back buffer \<open>target\<close> and the view in slot \<open>i\<close>:
  those of \<^verbatim>\<open>BeginScene\<close>, of \<^verbatim>\<open>Render\<close> and the barrier of \<^verbatim>\<open>EndScene\<close>.
\<close>

definition frame_commands :: "nat \<Rightarrow> nat option \<Rightarrow> cmd list" where
  "frame_commands i target =
     [SetRootSignature, RSSetViewports, RSSetScissorRects,
      ResourceBarrier target D3D12_RESOURCE_STATE_PRESENT D3D12_RESOURCE_STATE_RENDER_TARGET,
      OMSetRenderTargets i, ClearRenderTargetView i,
      IASetPrimitiveTopology, SetRootDescriptorTable 1, BindBuffers 0 i, Draw,
      ResourceBarrier target D3D12_RESOURCE_STATE_RENDER_TARGET D3D12_RESOURCE_STATE_PRESENT]"

subsection \<open>Kinds of calls\<close>

text \<open>The calls of \<^verbatim>\<open>FindAndCreateDevice\<close>.\<close>

fun device_call :: "call \<Rightarrow> bool" where
  "device_call (CreateDXGIFactory1 hr) = True"
| "device_call (EnumAdapters1 i hr) = True"
| "device_call (D3D12CreateDevice a l hr) = True"
| "device_call c = False"

text \<open>The calls \<^verbatim>\<open>Initialize\<close> makes after \<^verbatim>\<open>FindAndCreateDevice\<close>, up to the signal.\<close>

definition startup_calls :: "call list" where
  "startup_calls =
     [CreateCommandQueue, CreateCommandAllocator, CreateCommandList,
      CreateSwapChainForHwnd FRAME_BUFFERS, GetCurrentBackBufferIndex 0,
      CreateDescriptorHeap FRAME_BUFFERS,
      GetBuffer 0, CreateRenderTargetView 0 0, GetBuffer 1, CreateRenderTargetView 1 1,
      CreateFence 0, CreateEvent,
      Record SceneUpload, Close, ExecuteCommandLists [SceneUpload]]"

subsection \<open>Projections of a log\<close>

text \<open>The presentations, the submitted command lists and the recorded commands of a log.\<close>

definition presents :: "call list \<Rightarrow> call list" where
  "presents cs = filter (\<lambda>c. case c of Present i fl \<Rightarrow> True | _ \<Rightarrow> False) cs"

definition submissions :: "call list \<Rightarrow> cmd list list" where
  "submissions cs = concat (map (\<lambda>c. case c of ExecuteCommandLists l \<Rightarrow> [l] | _ \<Rightarrow> []) cs)"

definition recorded :: "call list \<Rightarrow> cmd list" where
  "recorded cs = concat (map (\<lambda>c. case c of Record x \<Rightarrow> [x] | _ \<Rightarrow> []) cs)"

text \<open>The indices the swap chain reported, and the one it reported last.\<close>

definition indices :: "call list \<Rightarrow> nat list" where
  "indices cs = concat (map (\<lambda>c. case c of GetCurrentBackBufferIndex i \<Rightarrow> [i] | _ \<Rightarrow> []) cs)"

definition reported_index :: "call list \<Rightarrow> nat option" where
  "reported_index cs = (case indices cs of [] \<Rightarrow> None | is \<Rightarrow> Some (last is))"

text \<open>
  The state tag of every resource after a list of recorded commands, kept as the
  recording goes: a barrier whose state before is not the tag is refused (\<open>None\<close>),
  otherwise the tag becomes its state after. The scene uploads and the helper commands
  leave the back buffers alone.
\<close>

fun track :: "cmd list \<Rightarrow> (nat option \<Rightarrow> resource_state) \<Rightarrow> (nat option \<Rightarrow> resource_state) option" where
  "track [] tag = Some tag"
| "track (ResourceBarrier r before after # cs) tag =
     (if tag r = before then track cs (tag(r := after)) else None)"
| "track (c # cs) tag = track cs tag"

text \<open>Back buffers come out of the swap chain in the state \<^verbatim>\<open>PRESENT\<close>.\<close>

definition presentable :: "nat option \<Rightarrow> resource_state" where
  "presentable r = D3D12_RESOURCE_STATE_PRESENT"

subsection \<open>Sample runs\<close>

text \<open>
  A runtime that answers \<^verbatim>\<open>S_OK\<close> to every call of a frame, with a GPU that has done
  nothing (\<open>frame0\<close>) or everything (\<open>frame1\<close>) when the fence is read; and a start
  on \<open>machine0\<close> where every creation succeeds and the scene has a \<open>Triangle\<close> entry.
\<close>

definition frame0 :: frame where
  "frame0 = \<lparr> AllocatorReset_hr = 0, ListReset_hr = 0, Close_hr = 0, Present_hr = 0, progress = 0 \<rparr>"

definition frame1 :: frame where
  "frame1 = \<lparr> AllocatorReset_hr = 0, ListReset_hr = 0, Close_hr = 0, Present_hr = 0, progress = 3 \<rparr>"

definition scene0 :: Shader where
  "scene0 = \<lparr> m_shaders = [Triangle \<mapsto> \<lparr>type = 3, blobs = [None, None], pipelineState = True\<rparr>],
               compilations = [] \<rparr>"

definition startup0 :: startup where
  "startup0 = \<lparr> machine = machine0, CreateCommandQueue_hr = 0, CreateCommandAllocator_hr = 0,
      CreateCommandList_hr = 0, CreateSwapChainForHwnd_hr = 0, CreateDescriptorHeap_hr = 0,
      GetBuffer_hr = (\<lambda>i. 0), CreateFence_hr = 0, scene = Some scene0,
      startup_Close_hr = 0, startup_progress = 0 \<rparr>"

subsection \<open>States between frames\<close>

text \<open>
  What \<^verbatim>\<open>Initialize\<close> sets up for the frames: the frame index is the swap chain's
  current back buffer, the swap chain has \<^verbatim>\<open>FRAME_BUFFERS\<close> buffers, the array holds
  them, and slot \<open>i\<close> of the descriptor heap holds the view of buffer \<open>i\<close>.
\<close>

definition ready :: "D3D \<Rightarrow> bool" where
  "ready s \<longleftrightarrow>
     m_frameIndex s = backBuffer s \<and> backBuffer s < FRAME_BUFFERS \<and>
     BufferCount s = FRAME_BUFFERS \<and>
     m_backBufferRenderTarget s = [Some 0, Some 1] \<and>
     renderTargetViews s = [0 \<mapsto> Some 0, 1 \<mapsto> Some 1] \<and>
     m_device s \<noteq> None"

text \<open>Nothing is left in the queue, and the fence has the value signalled last.\<close>

definition idle :: "D3D \<Rightarrow> bool" where
  "idle s \<longleftrightarrow> queue s = [] \<and> completedValue s + 1 = m_fenceValue s"

text \<open>The runtime answers \<^verbatim>\<open>S_OK\<close> to the asserted calls of a frame.\<close>

definition frame_ok :: "frame \<Rightarrow> bool" where
  "frame_ok f \<longleftrightarrow>
     AllocatorReset_hr f = 0 \<and> ListReset_hr f = 0 \<and> Close_hr f = 0 \<and> Present_hr f = 0"

text \<open>
  A machine without adapters on which no device can be created (\<^verbatim>\<open>E_FAIL\<close>), and the
  start on it.
\<close>

definition machine_none :: platform where
  "machine_none = \<lparr> CreateDXGIFactory1_hr = 0, adapters = [],
      D3D12CreateDevice_hr = (\<lambda>a l. - 2147467259) \<rparr>"

definition startup_none :: startup where
  "startup_none = startup0\<lparr>machine := machine_none\<rparr>"

section \<open>Basic facts\<close>

lemma and_then_Inl [simp]: "and_then (Inl e) f = Inl e"
  by (simp add: and_then_def)

lemma and_then_Inr [simp]: "and_then (Inr x) f = f x"
  by (simp add: and_then_def)

lemma and_then_eq_Inr: "and_then m f = Inr y \<longleftrightarrow> (\<exists>x. m = Inr x \<and> f x = Inr y)"
  by (cases m) simp_all

lemma assert_not_eq_Inr [simp]: "assert_not a hr s = Inr s' \<longleftrightarrow> hr = 0 \<and> s' = s"
  by (auto simp: assert_not_def)

lemma assert_not_0 [simp]: "assert_not a 0 s = Inr s"
  by (simp add: assert_not_def)

lemma FAILED_iff: "FAILED hr \<longleftrightarrow> \<not> SUCCEEDED hr"
  by (auto simp: FAILED_def SUCCEEDED_def)

lemma log_simps [simp]:
  "m_device (log c s) = m_device s"
  "m_factory (log c s) = m_factory s"
  "m_frameIndex (log c s) = m_frameIndex s"
  "m_fenceValue (log c s) = m_fenceValue s"
  "m_backBufferRenderTarget (log c s) = m_backBufferRenderTarget s"
  "shaders (log c s) = shaders s"
  "commandList (log c s) = commandList s"
  "queue (log c s) = queue s"
  "completedValue (log c s) = completedValue s"
  "BufferCount (log c s) = BufferCount s"
  "backBuffer (log c s) = backBuffer s"
  "renderTargetViews (log c s) = renderTargetViews s"
  "calls (log c s) = calls s @ [c]"
  by (simp_all add: log_def)

lemma record_cmd_simps [simp]:
  "m_device (record_cmd c s) = m_device s"
  "m_factory (record_cmd c s) = m_factory s"
  "m_frameIndex (record_cmd c s) = m_frameIndex s"
  "m_fenceValue (record_cmd c s) = m_fenceValue s"
  "m_backBufferRenderTarget (record_cmd c s) = m_backBufferRenderTarget s"
  "shaders (record_cmd c s) = shaders s"
  "commandList (record_cmd c s) = commandList s @ [c]"
  "queue (record_cmd c s) = queue s"
  "completedValue (record_cmd c s) = completedValue s"
  "BufferCount (record_cmd c s) = BufferCount s"
  "backBuffer (record_cmd c s) = backBuffer s"
  "renderTargetViews (record_cmd c s) = renderTargetViews s"
  "calls (record_cmd c s) = calls s @ [Record c]"
  by (simp_all add: record_cmd_def)

section \<open>The device is created on the first adapter that qualifies\<close>

lemma device_creations_append [simp]:
  "device_creations (xs @ ys) = device_creations xs @ device_creations ys"
  by (simp add: device_creations_def)

lemma device_creations_Nil [simp]: "device_creations [] = []"
  by (simp add: device_creations_def)

lemma device_creations_single:
  "device_creations [c] = (case c of D3D12CreateDevice a l hr \<Rightarrow> [(a, l, hr)] | _ \<Rightarrow> [])"
  by (simp add: device_creations_def)

lemma D3D12CreateDevice_call_simps [simp]:
  "fst (D3D12CreateDevice_call p a l s) = D3D12CreateDevice_hr p a l"
  "m_device (snd (D3D12CreateDevice_call p a l s)) =
     (if SUCCEEDED (D3D12CreateDevice_hr p a l) then Some (Device a l) else None)"
  "device_creations (calls (snd (D3D12CreateDevice_call p a l s))) =
     device_creations (calls s) @ [attempt p a l]"
  by (simp_all add: D3D12CreateDevice_call_def Let_def attempt_def device_creations_single)

text \<open>
  The loop from index \<open>i\<close> on: it returns the first qualifying adapter among those
  left, has tried the ones before it in order, and leaves \<^verbatim>\<open>m_device\<close> accordingly.
\<close>

lemma adapter_loop_drop:
  "i \<le> length (adapters p) \<Longrightarrow>
   fst (adapter_loop p i s) = find (qualifies p) (drop i (adapters p)) \<and>
   device_creations (calls (snd (adapter_loop p i s))) =
     device_creations (calls s) @
     map (\<lambda>a. attempt p (Some a) D3D_FEATURE_LEVEL_12_1)
       (takeWhile (\<lambda>a. \<not> qualifies p a) (drop i (adapters p)) @
        (case find (qualifies p) (drop i (adapters p)) of Some a \<Rightarrow> [a] | None \<Rightarrow> [])) \<and>
   m_device (snd (adapter_loop p i s)) =
     (case find (qualifies p) (drop i (adapters p)) of
        Some a \<Rightarrow> Some (Device (Some a) D3D_FEATURE_LEVEL_12_1)
      | None \<Rightarrow> if i < length (adapters p) then None else m_device s)"
proof (induction p i s rule: adapter_loop.induct)
  case (1 p i s)
  show ?case
  proof (cases "i < length (adapters p)")
    case False
    with 1(2) have "drop i (adapters p) = []" by simp
    with False show ?thesis
      by (subst (1 2 3) adapter_loop.simps)
         (simp add: EnumAdapters1_call_def FAILED_def DXGI_ERROR_NOT_FOUND_def device_creations_single)
  next
    case True
    then have d: "drop i (adapters p) = adapters p ! i # drop (Suc i) (adapters p)"
      by (simp add: Cons_nth_drop_Suc)
    define s1 where "s1 = log (EnumAdapters1 i S_OK) s"
    define s2 where
      "s2 = snd (D3D12CreateDevice_call p (Some (adapters p ! i)) D3D_FEATURE_LEVEL_12_1 s1)"
    have e: "EnumAdapters1_call p i s = (S_OK, Some (adapters p ! i), s1)"
      using True by (simp add: EnumAdapters1_call_def s1_def)
    have c: "D3D12CreateDevice_call p (Some (adapters p ! i)) D3D_FEATURE_LEVEL_12_1 s1 =
               (D3D12CreateDevice_hr p (Some (adapters p ! i)) D3D_FEATURE_LEVEL_12_1, s2)"
      by (simp add: s2_def prod_eq_iff)
    have nf: "\<not> FAILED S_OK" by (simp add: FAILED_def S_OK_def)
    have s2: "device_creations (calls s2) =
                device_creations (calls s) @ [attempt p (Some (adapters p ! i)) D3D_FEATURE_LEVEL_12_1]"
      by (simp add: s2_def s1_def device_creations_single)
    show ?thesis
    proof (cases "qualifies p (adapters p ! i)")
      case q: True
      then have "adapter_loop p i s = (Some (adapters p ! i), s2)"
        by (subst adapter_loop.simps) (simp add: e c nf qualifies_def)
      with q d s2 show ?thesis
        by (simp add: s2_def qualifies_def)
    next
      case q: False
      then have ns: "\<not> SUCCEEDED (D3D12CreateDevice_hr p (Some (adapters p ! i)) D3D_FEATURE_LEVEL_12_1)"
        by (simp add: qualifies_def)
      have step: "adapter_loop p i s = adapter_loop p (i + 1) s2"
        by (subst adapter_loop.simps) (simp add: e c nf ns)
      have IH: "fst (adapter_loop p (i + 1) s2) = find (qualifies p) (drop (i + 1) (adapters p)) \<and>
         device_creations (calls (snd (adapter_loop p (i + 1) s2))) =
           device_creations (calls s2) @
           map (\<lambda>a. attempt p (Some a) D3D_FEATURE_LEVEL_12_1)
            (takeWhile (\<lambda>a. \<not> qualifies p a) (drop (i + 1) (adapters p)) @
             (case find (qualifies p) (drop (i + 1) (adapters p)) of None \<Rightarrow> [] | Some a \<Rightarrow> [a])) \<and>
         m_device (snd (adapter_loop p (i + 1) s2)) =
           (case find (qualifies p) (drop (i + 1) (adapters p)) of
              None \<Rightarrow> if i + 1 < length (adapters p) then None else m_device s2
            | Some a \<Rightarrow> Some (Device (Some a) D3D_FEATURE_LEVEL_12_1))"
        using "1.IH" [OF e [symmetric] refl nf c [symmetric] ns] True by simp
      have "m_device s2 = None"
        using ns by (simp add: s2_def)
      with IH s2 q d True show ?thesis
        unfolding step by (simp split: option.splits)
    qed
  qed
qed

lemma FindAndCreateDevice_unfold:
  "FindAndCreateDevice p s =
     (if FAILED (CreateDXGIFactory1_hr p)
      then (False, log (CreateDXGIFactory1 (CreateDXGIFactory1_hr p)) (s\<lparr>m_factory := False\<rparr>))
      else let r = adapter_loop p 0 (log (CreateDXGIFactory1 (CreateDXGIFactory1_hr p)) (s\<lparr>m_factory := True\<rparr>));
               l = (if fst r \<noteq> None then D3D_FEATURE_LEVEL_12_1 else D3D_FEATURE_LEVEL_11_1)
           in (SUCCEEDED (D3D12CreateDevice_hr p (fst r) l),
               snd (D3D12CreateDevice_call p (fst r) l (snd r))))"
  by (auto simp: FindAndCreateDevice_def Let_def FAILED_iff D3D12CreateDevice_call_def
           split: prod.splits)

text \<open>
  C7. \<^verbatim>\<open>FindAndCreateDevice\<close> returns true exactly when one of its device creation
  calls succeeded. When the factory exists, it tries the adapters in enumeration order
  at feature level 12.1 up to the first that qualifies, creates the device on that
  adapter, and, when no enumerated adapter qualifies, makes one more attempt: feature
  level 11.1 with the null adapter.
\<close>

theorem FindAndCreateDevice_first_qualifying:
  "(fst (FindAndCreateDevice p s) \<longleftrightarrow>
      list_ex (\<lambda>(a, l, hr). SUCCEEDED hr)
        (drop (length (device_creations (calls s)))
           (device_creations (calls (snd (FindAndCreateDevice p s)))))) \<and>
   (SUCCEEDED (CreateDXGIFactory1_hr p) \<longrightarrow>
      device_creations (calls (snd (FindAndCreateDevice p s))) =
        device_creations (calls s) @
        map (\<lambda>a. attempt p (Some a) D3D_FEATURE_LEVEL_12_1)
          (takeWhile (\<lambda>a. \<not> qualifies p a) (adapters p)) @
        (case find (qualifies p) (adapters p) of
           Some a \<Rightarrow> [attempt p (Some a) D3D_FEATURE_LEVEL_12_1,
                      attempt p (Some a) D3D_FEATURE_LEVEL_12_1]
         | None \<Rightarrow> [attempt p None D3D_FEATURE_LEVEL_11_1]) \<and>
      (case find (qualifies p) (adapters p) of
         Some a \<Rightarrow>
           fst (FindAndCreateDevice p s) \<and>
           m_device (snd (FindAndCreateDevice p s)) = Some (Device (Some a) D3D_FEATURE_LEVEL_12_1)
       | None \<Rightarrow>
           fst (FindAndCreateDevice p s) = SUCCEEDED (D3D12CreateDevice_hr p None D3D_FEATURE_LEVEL_11_1) \<and>
           m_device (snd (FindAndCreateDevice p s)) =
             (if SUCCEEDED (D3D12CreateDevice_hr p None D3D_FEATURE_LEVEL_11_1)
              then Some (Device None D3D_FEATURE_LEVEL_11_1) else None)))"
proof (cases "FAILED (CreateDXGIFactory1_hr p)")
  case True
  then show ?thesis
    by (simp add: FindAndCreateDevice_unfold FAILED_iff device_creations_single)
next
  case False
  define s0 where "s0 = log (CreateDXGIFactory1 (CreateDXGIFactory1_hr p)) (s\<lparr>m_factory := True\<rparr>)"
  have s0: "device_creations (calls s0) = device_creations (calls s)"
    by (simp add: s0_def device_creations_single)
  note L = adapter_loop_drop [of 0 p s0, simplified, unfolded s0]
  show ?thesis
  proof (cases "find (qualifies p) (adapters p)")
    case None
    then have "\<forall>a \<in> set (takeWhile (\<lambda>a. \<not> qualifies p a) (adapters p)). \<not> qualifies p a"
      by (auto dest: set_takeWhileD)
    then have nq: "\<not> list_ex (\<lambda>(a, l, hr). SUCCEEDED hr)
        (map (\<lambda>a. attempt p (Some a) D3D_FEATURE_LEVEL_12_1)
          (takeWhile (\<lambda>a. \<not> qualifies p a) (adapters p)))"
      by (auto simp: list_ex_iff attempt_def qualifies_def)
    from None False L nq show ?thesis
      by (simp add: FindAndCreateDevice_unfold Let_def s0_def [symmetric] FAILED_iff attempt_def)
  next
    case (Some a)
    then have "qualifies p a" by (auto simp: find_Some_iff)
    with Some False L show ?thesis
      by (simp add: FindAndCreateDevice_unfold Let_def s0_def [symmetric] FAILED_iff attempt_def qualifies_def)
  qed
qed

theorem FindAndCreateDevice_first_qualifying_witness:
  "SUCCEEDED (CreateDXGIFactory1_hr machine0) \<and>
   fst (FindAndCreateDevice machine0 D3D_new) \<and>
   m_device (snd (FindAndCreateDevice machine0 D3D_new)) = Some (Device (Some 8) D3D_FEATURE_LEVEL_12_1) \<and>
   device_creations (calls (snd (FindAndCreateDevice machine0 D3D_new))) =
     [(Some 7, D3D_FEATURE_LEVEL_12_1, - 1), (Some 8, D3D_FEATURE_LEVEL_12_1, 0),
      (Some 8, D3D_FEATURE_LEVEL_12_1, 0)]"
  using FindAndCreateDevice_first_qualifying [of machine0 D3D_new]
  by (simp add: machine0_def SUCCEEDED_def qualifies_def attempt_def D3D_new_def)

section \<open>Shader entries and their blobs\<close>

text \<open>What the two functions return, case by case.\<close>

lemma compile_blob_result:
  "compile_blob cc path entry target i (data, sh) =
     (if length (blobs data) \<le> i then Inl (OutOfBounds i)
      else if cc path entry = 0
      then Inr (data\<lparr>blobs := (blobs data)[i := Some entry]\<rparr>,
                sh\<lparr>compilations := compilations sh @ [(path, entry, target)]\<rparr>)
      else Inl (AssertionFailed A_D3DCompileFromFile))"
  by (simp add: compile_blob_def assert_not_def SUCCEEDED_def)

lemma LoadShadersFromFile_result:
  "LoadShadersFromFile st cc sid path ty sh =
     (if ty = VS st OR PS st
      then if cc path ''VS_MAIN'' \<noteq> 0 \<or> cc path ''PS_MAIN'' \<noteq> 0
           then Inl (AssertionFailed A_D3DCompileFromFile)
           else if m_shaders sh sid \<noteq> None then Inl (AssertionFailed A_inserted)
           else Inr (sh\<lparr>compilations := compilations sh @
                          [(path, ''VS_MAIN'', ''vs_5_1''), (path, ''PS_MAIN'', ''ps_5_1'')],
                        m_shaders := (m_shaders sh)
                          (sid \<mapsto> \<lparr>type = ty, blobs = [Some ''VS_MAIN'', Some ''PS_MAIN''],
                                    pipelineState = False\<rparr>)\<rparr>)
      else if ty = CS st
      then if cc path ''CS_MAIN'' \<noteq> 0
           then Inl (AssertionFailed A_D3DCompileFromFile)
           else if m_shaders sh sid \<noteq> None then Inl (AssertionFailed A_inserted)
           else Inr (sh\<lparr>compilations := compilations sh @ [(path, ''CS_MAIN'', ''cs_5_1'')],
                        m_shaders := (m_shaders sh)
                          (sid \<mapsto> \<lparr>type = ty, blobs = [Some ''CS_MAIN''], pipelineState = False\<rparr>)\<rparr>)
      else if m_shaders sh sid \<noteq> None then Inl (AssertionFailed A_inserted)
      else Inr (sh\<lparr>m_shaders := (m_shaders sh)
                     (sid \<mapsto> \<lparr>type = ty, blobs = [], pipelineState = False\<rparr>)\<rparr>))"
  by (simp add: LoadShadersFromFile_def compile_blob_result resize_def numeral_2_eq_2)

lemma LoadShadersFromFile_entry:
  assumes "LoadShadersFromFile st cc sid path ty sh = Inr sh'"
  shows "m_shaders sh sid = None"
    and "m_shaders sh' sid =
      Some \<lparr>type = ty,
            blobs = (if ty = VS st OR PS st then [Some ''VS_MAIN'', Some ''PS_MAIN'']
                     else if ty = CS st then [Some ''CS_MAIN''] else []),
            pipelineState = False\<rparr>"
  using assms unfolding LoadShadersFromFile_result
  by (auto split: if_splits)

lemma CreateInputLayoutAndPipelineState_result:
  assumes "m_shaders sh sid = Some found"
  shows "CreateInputLayoutAndPipelineState st dev hr sid sh =
     (if blobs found = [] then Inl (OutOfBounds 0)
      else if blobs found ! 0 = None then Inl NullPointerCall
      else if length (blobs found) = 1 then Inl (OutOfBounds 1)
      else if blobs found ! 1 = None then Inl NullPointerCall
      else if type found = VS st OR GS st OR PS st \<and> length (blobs found) = 2 then Inl (OutOfBounds 2)
      else if type found = VS st OR GS st OR PS st \<and> blobs found ! 2 = None then Inl NullPointerCall
      else if dev = None then Inl NullPointerCall
      else if hr \<noteq> 0 then Inl (AssertionFailed A_CreateGraphicsPipelineState)
      else Inr (sh\<lparr>m_shaders := (m_shaders sh)
                  (sid \<mapsto> found\<lparr>pipelineState := True,
                                 blobs := (blobs found)[0 := None, 1 := None]\<rparr>)\<rparr>))"
  using assms
  by (cases "blobs found"; cases "tl (blobs found)")
     (auto simp: CreateInputLayoutAndPipelineState_def shader_bytecode_def assert_not_def
           split: option.splits)


text \<open>
  C10. A call of \<^verbatim>\<open>LoadShadersFromFile\<close> with a type that is neither \<^verbatim>\<open>VS | PS\<close> nor
  \<^verbatim>\<open>CS\<close>, for an id without an entry, compiles nothing and inserts an entry with an
  empty blob vector under the id. After a call that returned, a second call with the
  same id never returns and adds no entry: it fails the assertion of the insertion,
  unless one of the compilations it attempts before the insertion fails, and then the
  assertion of that compilation.
\<close>

theorem LoadShadersFromFile_other_type_and_second_call:
  "(ty \<noteq> VS st OR PS st \<and> ty \<noteq> CS st \<and> m_shaders sh sid = None \<longrightarrow>
      LoadShadersFromFile st cc sid path ty sh =
        Inr (sh\<lparr>m_shaders := (m_shaders sh)(sid \<mapsto> \<lparr>type = ty, blobs = [], pipelineState = False\<rparr>)\<rparr>)) \<and>
   (\<forall>sh'. LoadShadersFromFile st cc sid path ty sh = Inr sh' \<longrightarrow>
      m_shaders sh sid = None \<and> m_shaders sh' sid \<noteq> None \<and>
      LoadShadersFromFile st cc' sid path' ty' sh' =
        Inl (AssertionFailed
          (if ty' = VS st OR PS st
           then if cc' path' ''VS_MAIN'' = 0 \<and> cc' path' ''PS_MAIN'' = 0
                then A_inserted else A_D3DCompileFromFile
           else if ty' = CS st
           then if cc' path' ''CS_MAIN'' = 0 then A_inserted else A_D3DCompileFromFile
           else A_inserted)))"
proof (intro conjI allI impI)
  assume "ty \<noteq> VS st OR PS st \<and> ty \<noteq> CS st \<and> m_shaders sh sid = None"
  then show "LoadShadersFromFile st cc sid path ty sh =
        Inr (sh\<lparr>m_shaders := (m_shaders sh)(sid \<mapsto> \<lparr>type = ty, blobs = [], pipelineState = False\<rparr>)\<rparr>)"
    by (simp add: LoadShadersFromFile_result)
next
  fix sh' assume a: "LoadShadersFromFile st cc sid path ty sh = Inr sh'"
  from LoadShadersFromFile_entry [OF a] show "m_shaders sh sid = None" by simp
  from LoadShadersFromFile_entry [OF a] have p: "m_shaders sh' sid \<noteq> None" by simp
  then show "m_shaders sh' sid \<noteq> None" .
  from p show "LoadShadersFromFile st cc' sid path' ty' sh' =
        Inl (AssertionFailed
          (if ty' = VS st OR PS st
           then if cc' path' ''VS_MAIN'' = 0 \<and> cc' path' ''PS_MAIN'' = 0
                then A_inserted else A_D3DCompileFromFile
           else if ty' = CS st
           then if cc' path' ''CS_MAIN'' = 0 then A_inserted else A_D3DCompileFromFile
           else A_inserted))"
    by (simp add: LoadShadersFromFile_result)
qed

theorem LoadShadersFromFile_other_type_and_second_call_witness:
  "LoadShadersFromFile stages0 compiler_ok Triangle ''a.hlsl'' 4 Shader_new =
     Inr \<lparr> m_shaders = [Triangle \<mapsto> \<lparr>type = 4, blobs = [], pipelineState = False\<rparr>], compilations = [] \<rparr> \<and>
   LoadShadersFromFile stages0 compiler_ok Triangle ''b.hlsl'' 3
     \<lparr> m_shaders = [Triangle \<mapsto> \<lparr>type = 4, blobs = [], pipelineState = False\<rparr>], compilations = [] \<rparr> =
     Inl (AssertionFailed A_inserted) \<and>
   LoadShadersFromFile stages0 compiler_fails Triangle ''b.hlsl'' 3
     \<lparr> m_shaders = [Triangle \<mapsto> \<lparr>type = 4, blobs = [], pipelineState = False\<rparr>], compilations = [] \<rparr> =
     Inl (AssertionFailed A_D3DCompileFromFile)"
  using LoadShadersFromFile_other_type_and_second_call
          [where ty = 4 and st = stages0 and sh = Shader_new and sid = Triangle and cc = compiler_ok
             and path = "''a.hlsl''" and cc' = compiler_ok and path' = "''b.hlsl''" and ty' = 3]
        LoadShadersFromFile_other_type_and_second_call
          [where ty = 4 and st = stages0 and sh = Shader_new and sid = Triangle and cc = compiler_ok
             and path = "''a.hlsl''" and cc' = compiler_fails and path' = "''b.hlsl''" and ty' = 3]
  by (simp add: stages0_def Shader_new_def compiler_ok_def compiler_fails_def S_OK_def E_FAIL_def)

text \<open>
  A second call with the same id whose compilation fails ends at the assertion of the
  compilation; it does not reach the insertion.
\<close>

theorem second_call_with_failing_compilation:
  "LoadShadersFromFile stages0 compiler_ok Triangle ''a.hlsl'' 3 Shader_new =
     Inr \<lparr> m_shaders = [Triangle \<mapsto> \<lparr>type = 3, blobs = [Some ''VS_MAIN'', Some ''PS_MAIN''],
                                       pipelineState = False\<rparr>],
           compilations = [(''a.hlsl'', ''VS_MAIN'', ''vs_5_1''), (''a.hlsl'', ''PS_MAIN'', ''ps_5_1'')] \<rparr> \<and>
   LoadShadersFromFile stages0 compiler_fails Triangle ''b.hlsl'' 3
     \<lparr> m_shaders = [Triangle \<mapsto> \<lparr>type = 3, blobs = [Some ''VS_MAIN'', Some ''PS_MAIN''],
                                  pipelineState = False\<rparr>],
       compilations = [(''a.hlsl'', ''VS_MAIN'', ''vs_5_1''), (''a.hlsl'', ''PS_MAIN'', ''ps_5_1'')] \<rparr> =
     Inl (AssertionFailed A_D3DCompileFromFile) \<and>
   LoadShadersFromFile stages0 compiler_fails Triangle ''b.hlsl'' 3
     \<lparr> m_shaders = [Triangle \<mapsto> \<lparr>type = 3, blobs = [Some ''VS_MAIN'', Some ''PS_MAIN''],
                                  pipelineState = False\<rparr>],
       compilations = [(''a.hlsl'', ''VS_MAIN'', ''vs_5_1''), (''a.hlsl'', ''PS_MAIN'', ''ps_5_1'')] \<rparr> \<noteq>
     Inl (AssertionFailed A_inserted)"
  by (simp add: LoadShadersFromFile_def compile_blob_def resize_def assert_not_def stages0_def
        Shader_new_def compiler_ok_def compiler_fails_def S_OK_def E_FAIL_def SUCCEEDED_def
        numeral_2_eq_2)

text \<open>
  C9. A call of \<^verbatim>\<open>LoadShadersFromFile\<close> returns exactly when the id is new and the
  compilations of its type succeed, and the entry it makes has at most two blobs: two
  for the type \<^verbatim>\<open>VS | PS\<close>, one for \<^verbatim>\<open>CS\<close>, none for any other type.
  \<^verbatim>\<open>CreateInputLayoutAndPipelineState\<close> reads \<^verbatim>\<open>blobs[0]\<close> and \<^verbatim>\<open>blobs[1]\<close> of the entry,
  and \<^verbatim>\<open>blobs[2]\<close> when the type is \<^verbatim>\<open>VS | GS | PS\<close>; on an entry made by
  \<^verbatim>\<open>LoadShadersFromFile\<close> it ends at the first subscript outside the vector: 2 for an
  entry with two blobs whose type is \<^verbatim>\<open>VS | GS | PS\<close> as well, 1 for a \<^verbatim>\<open>CS\<close> entry, 0 for
  an entry of any other type, also of the type \<^verbatim>\<open>VS | GS | PS\<close>. All its subscripts are
  inside the vector exactly when the type is \<^verbatim>\<open>VS | PS\<close> and differs from
  \<^verbatim>\<open>VS | GS | PS\<close>; then it creates the pipeline state and resets the two blobs.
\<close>

theorem blobs_of_loaded_entry:
  "((\<exists>sh'. LoadShadersFromFile st cc sid path ty sh = Inr sh') \<longleftrightarrow>
      m_shaders sh sid = None \<and>
      (ty = VS st OR PS st \<longrightarrow> cc path ''VS_MAIN'' = 0 \<and> cc path ''PS_MAIN'' = 0) \<and>
      (ty \<noteq> VS st OR PS st \<and> ty = CS st \<longrightarrow> cc path ''CS_MAIN'' = 0)) \<and>
   (\<forall>sh'. LoadShadersFromFile st cc sid path ty sh = Inr sh' \<longrightarrow>
      (\<exists>found. m_shaders sh' sid = Some found \<and> type found = ty \<and>
         blobs found = (if ty = VS st OR PS st then [Some ''VS_MAIN'', Some ''PS_MAIN'']
                        else if ty = CS st then [Some ''CS_MAIN''] else []) \<and>
         length (blobs found) \<le> 2 \<and>
         CreateInputLayoutAndPipelineState st dev hr sid sh' =
           (if ty = VS st OR PS st
            then if ty = VS st OR GS st OR PS st then Inl (OutOfBounds 2)
                 else if dev = None then Inl NullPointerCall
                 else if hr \<noteq> 0 then Inl (AssertionFailed A_CreateGraphicsPipelineState)
                 else Inr (sh'\<lparr>m_shaders := (m_shaders sh')
                             (sid \<mapsto> found\<lparr>pipelineState := True, blobs := [None, None]\<rparr>)\<rparr>)
            else if ty = CS st then Inl (OutOfBounds 1)
            else Inl (OutOfBounds 0)) \<and>
         (out_of_bounds (CreateInputLayoutAndPipelineState st dev hr sid sh') \<longleftrightarrow>
            ty \<noteq> VS st OR PS st \<or> ty = VS st OR GS st OR PS st)))"
proof (intro conjI allI impI)
  show "(\<exists>sh'. LoadShadersFromFile st cc sid path ty sh = Inr sh') \<longleftrightarrow>
      m_shaders sh sid = None \<and>
      (ty = VS st OR PS st \<longrightarrow> cc path ''VS_MAIN'' = 0 \<and> cc path ''PS_MAIN'' = 0) \<and>
      (ty \<noteq> VS st OR PS st \<and> ty = CS st \<longrightarrow> cc path ''CS_MAIN'' = 0)"
    by (simp add: LoadShadersFromFile_result)
next
  fix sh' assume a: "LoadShadersFromFile st cc sid path ty sh = Inr sh'"
  define found where "found = \<lparr>type = ty,
            blobs = (if ty = VS st OR PS st then [Some ''VS_MAIN'', Some ''PS_MAIN'']
                     else if ty = CS st then [Some ''CS_MAIN''] else []),
            pipelineState = False\<rparr>"
  from LoadShadersFromFile_entry(2) [OF a] have f: "m_shaders sh' sid = Some found"
    by (simp add: found_def)
  have r: "CreateInputLayoutAndPipelineState st dev hr sid sh' =
           (if ty = VS st OR PS st
            then if ty = VS st OR GS st OR PS st then Inl (OutOfBounds 2)
                 else if dev = None then Inl NullPointerCall
                 else if hr \<noteq> 0 then Inl (AssertionFailed A_CreateGraphicsPipelineState)
                 else Inr (sh'\<lparr>m_shaders := (m_shaders sh')
                             (sid \<mapsto> found\<lparr>pipelineState := True, blobs := [None, None]\<rparr>)\<rparr>)
            else if ty = CS st then Inl (OutOfBounds 1)
            else Inl (OutOfBounds 0))"
    unfolding CreateInputLayoutAndPipelineState_result [OF f]
    by (simp add: found_def)
  have o: "out_of_bounds (CreateInputLayoutAndPipelineState st dev hr sid sh') \<longleftrightarrow>
            ty \<noteq> VS st OR PS st \<or> ty = VS st OR GS st OR PS st"
    unfolding r by (simp add: out_of_bounds_def)
  from f r o show "\<exists>found. m_shaders sh' sid = Some found \<and> type found = ty \<and>
         blobs found = (if ty = VS st OR PS st then [Some ''VS_MAIN'', Some ''PS_MAIN'']
                        else if ty = CS st then [Some ''CS_MAIN''] else []) \<and>
         length (blobs found) \<le> 2 \<and>
         CreateInputLayoutAndPipelineState st dev hr sid sh' =
           (if ty = VS st OR PS st
            then if ty = VS st OR GS st OR PS st then Inl (OutOfBounds 2)
                 else if dev = None then Inl NullPointerCall
                 else if hr \<noteq> 0 then Inl (AssertionFailed A_CreateGraphicsPipelineState)
                 else Inr (sh'\<lparr>m_shaders := (m_shaders sh')
                             (sid \<mapsto> found\<lparr>pipelineState := True, blobs := [None, None]\<rparr>)\<rparr>)
            else if ty = CS st then Inl (OutOfBounds 1)
            else Inl (OutOfBounds 0)) \<and>
         (out_of_bounds (CreateInputLayoutAndPipelineState st dev hr sid sh') \<longleftrightarrow>
            ty \<noteq> VS st OR PS st \<or> ty = VS st OR GS st OR PS st)"
    by (intro exI [of _ found]) (simp add: found_def)
qed


theorem blobs_of_loaded_entry_witness:
  "LoadShadersFromFile stages0 compiler_ok Triangle ''a.hlsl'' 3 Shader_new =
     Inr \<lparr> m_shaders = [Triangle \<mapsto> \<lparr>type = 3, blobs = [Some ''VS_MAIN'', Some ''PS_MAIN''],
                                     pipelineState = False\<rparr>],
         compilations = [(''a.hlsl'', ''VS_MAIN'', ''vs_5_1''), (''a.hlsl'', ''PS_MAIN'', ''ps_5_1'')] \<rparr> \<and>
   CreateInputLayoutAndPipelineState stages0 (Some device0) 0 Triangle
       \<lparr> m_shaders = [Triangle \<mapsto> \<lparr>type = 3, blobs = [Some ''VS_MAIN'', Some ''PS_MAIN''],
                                     pipelineState = False\<rparr>],
         compilations = [(''a.hlsl'', ''VS_MAIN'', ''vs_5_1''), (''a.hlsl'', ''PS_MAIN'', ''ps_5_1'')] \<rparr> =
     Inr \<lparr> m_shaders = [Triangle \<mapsto> \<lparr>type = 3, blobs = [None, None], pipelineState = True\<rparr>],
         compilations = [(''a.hlsl'', ''VS_MAIN'', ''vs_5_1''), (''a.hlsl'', ''PS_MAIN'', ''ps_5_1'')] \<rparr> \<and>
   LoadShadersFromFile stages0 compiler_ok Triangle ''a.hlsl'' 8 Shader_new =
     Inr \<lparr> m_shaders = [Triangle \<mapsto> \<lparr>type = 8, blobs = [Some ''CS_MAIN''], pipelineState = False\<rparr>],
         compilations = [(''a.hlsl'', ''CS_MAIN'', ''cs_5_1'')] \<rparr> \<and>
   CreateInputLayoutAndPipelineState stages0 (Some device0) 0 Triangle
       \<lparr> m_shaders = [Triangle \<mapsto> \<lparr>type = 8, blobs = [Some ''CS_MAIN''], pipelineState = False\<rparr>],
         compilations = [(''a.hlsl'', ''CS_MAIN'', ''cs_5_1'')] \<rparr> =
     Inl (OutOfBounds 1) \<and>
   LoadShadersFromFile stages0 compiler_ok Triangle ''a.hlsl'' 7 Shader_new =
     Inr \<lparr> m_shaders = [Triangle \<mapsto> \<lparr>type = 7, blobs = [], pipelineState = False\<rparr>],
         compilations = [] \<rparr> \<and>
   CreateInputLayoutAndPipelineState stages0 (Some device0) 0 Triangle
       \<lparr> m_shaders = [Triangle \<mapsto> \<lparr>type = 7, blobs = [], pipelineState = False\<rparr>],
         compilations = [] \<rparr> =
     Inl (OutOfBounds 0)"
proof -
  have 3: "LoadShadersFromFile stages0 compiler_ok Triangle ''a.hlsl'' 3 Shader_new =
     Inr \<lparr> m_shaders = [Triangle \<mapsto> \<lparr>type = 3, blobs = [Some ''VS_MAIN'', Some ''PS_MAIN''],
                                     pipelineState = False\<rparr>],
         compilations = [(''a.hlsl'', ''VS_MAIN'', ''vs_5_1''), (''a.hlsl'', ''PS_MAIN'', ''ps_5_1'')] \<rparr>"
    and 8: "LoadShadersFromFile stages0 compiler_ok Triangle ''a.hlsl'' 8 Shader_new =
     Inr \<lparr> m_shaders = [Triangle \<mapsto> \<lparr>type = 8, blobs = [Some ''CS_MAIN''], pipelineState = False\<rparr>],
         compilations = [(''a.hlsl'', ''CS_MAIN'', ''cs_5_1'')] \<rparr>"
    and 7: "LoadShadersFromFile stages0 compiler_ok Triangle ''a.hlsl'' 7 Shader_new =
     Inr \<lparr> m_shaders = [Triangle \<mapsto> \<lparr>type = 7, blobs = [], pipelineState = False\<rparr>],
         compilations = [] \<rparr>"
    by (simp_all add: LoadShadersFromFile_result stages0_def Shader_new_def compiler_ok_def S_OK_def)
  note T = blobs_of_loaded_entry [where st = stages0 and cc = compiler_ok and sid = Triangle
      and path = "''a.hlsl''" and sh = Shader_new and dev = "Some device0" and hr = 0]
  from T [where ty = 3] 3
  have "CreateInputLayoutAndPipelineState stages0 (Some device0) 0 Triangle
       \<lparr> m_shaders = [Triangle \<mapsto> \<lparr>type = 3, blobs = [Some ''VS_MAIN'', Some ''PS_MAIN''],
                                     pipelineState = False\<rparr>],
         compilations = [(''a.hlsl'', ''VS_MAIN'', ''vs_5_1''), (''a.hlsl'', ''PS_MAIN'', ''ps_5_1'')] \<rparr> =
     Inr \<lparr> m_shaders = [Triangle \<mapsto> \<lparr>type = 3, blobs = [None, None], pipelineState = True\<rparr>],
         compilations = [(''a.hlsl'', ''VS_MAIN'', ''vs_5_1''), (''a.hlsl'', ''PS_MAIN'', ''ps_5_1'')] \<rparr>"
    by (simp add: stages0_def)
  moreover from T [where ty = 8] 8
  have "CreateInputLayoutAndPipelineState stages0 (Some device0) 0 Triangle
       \<lparr> m_shaders = [Triangle \<mapsto> \<lparr>type = 8, blobs = [Some ''CS_MAIN''], pipelineState = False\<rparr>],
         compilations = [(''a.hlsl'', ''CS_MAIN'', ''cs_5_1'')] \<rparr> =
     Inl (OutOfBounds 1)"
    by (simp add: stages0_def)
  moreover from T [where ty = 7] 7
  have "CreateInputLayoutAndPipelineState stages0 (Some device0) 0 Triangle
       \<lparr> m_shaders = [Triangle \<mapsto> \<lparr>type = 7, blobs = [], pipelineState = False\<rparr>],
         compilations = [] \<rparr> =
     Inl (OutOfBounds 0)"
    by (simp add: stages0_def)
  ultimately show ?thesis using 3 8 7 by simp
qed

text \<open>
  With one bit per stage, the entry of type \<^verbatim>\<open>VS | GS | PS\<close> has no blobs and the run
  ends at \<^verbatim>\<open>blobs[0]\<close>, before the branch of the geometry shader; and the entry of type
  \<^verbatim>\<open>CS\<close>, which is not \<^verbatim>\<open>VS | GS | PS\<close>, ends at \<^verbatim>\<open>blobs[1]\<close>.
\<close>

theorem first_read_out_of_bounds:
  "LoadShadersFromFile stages0 compiler_ok Triangle ''a.hlsl'' 7 Shader_new =
     Inr \<lparr> m_shaders = [Triangle \<mapsto> \<lparr>type = 7, blobs = [], pipelineState = False\<rparr>],
         compilations = [] \<rparr> \<and>
   7 = VS stages0 OR GS stages0 OR PS stages0 \<and>
   CreateInputLayoutAndPipelineState stages0 (Some device0) 0 Triangle
       \<lparr> m_shaders = [Triangle \<mapsto> \<lparr>type = 7, blobs = [], pipelineState = False\<rparr>],
         compilations = [] \<rparr> =
     Inl (OutOfBounds 0) \<and>
   LoadShadersFromFile stages0 compiler_ok Triangle ''a.hlsl'' 8 Shader_new =
     Inr \<lparr> m_shaders = [Triangle \<mapsto> \<lparr>type = 8, blobs = [Some ''CS_MAIN''], pipelineState = False\<rparr>],
         compilations = [(''a.hlsl'', ''CS_MAIN'', ''cs_5_1'')] \<rparr> \<and>
   8 \<noteq> VS stages0 OR GS stages0 OR PS stages0 \<and>
   CreateInputLayoutAndPipelineState stages0 (Some device0) 0 Triangle
       \<lparr> m_shaders = [Triangle \<mapsto> \<lparr>type = 8, blobs = [Some ''CS_MAIN''], pipelineState = False\<rparr>],
         compilations = [(''a.hlsl'', ''CS_MAIN'', ''cs_5_1'')] \<rparr> =
     Inl (OutOfBounds 1)"
  by (simp add: LoadShadersFromFile_def compile_blob_def resize_def assert_not_def and_then_def
        CreateInputLayoutAndPipelineState_def shader_bytecode_def stages0_def
        Shader_new_def compiler_ok_def S_OK_def SUCCEEDED_def)

section \<open>The functions of a frame, one by one\<close>

lemma gpu_run_frame [simp]:
  "m_device (gpu_run n s) = m_device s"
  "m_factory (gpu_run n s) = m_factory s"
  "m_frameIndex (gpu_run n s) = m_frameIndex s"
  "m_fenceValue (gpu_run n s) = m_fenceValue s"
  "m_backBufferRenderTarget (gpu_run n s) = m_backBufferRenderTarget s"
  "shaders (gpu_run n s) = shaders s"
  "commandList (gpu_run n s) = commandList s"
  "BufferCount (gpu_run n s) = BufferCount s"
  "backBuffer (gpu_run n s) = backBuffer s"
  "renderTargetViews (gpu_run n s) = renderTargetViews s"
  "calls (gpu_run n s) = calls s"
  by (induction n arbitrary: s; simp split: list.splits)+

lemma gpu_run_signal:
  "queue s = qs @ [QSignal v] \<Longrightarrow>
   (\<exists>qs'. queue (gpu_run n s) = qs' @ [QSignal v]) \<or>
   (queue (gpu_run n s) = [] \<and> completedValue (gpu_run n s) = v)"
proof (induction n arbitrary: s qs)
  case 0
  then show ?case by simp
next
  case (Suc n)
  show ?case
  proof (cases qs)
    case Nil
    with Suc.prems show ?thesis by (cases n) simp_all
  next
    case (Cons q qs')
    with Suc.prems Suc.IH [of "s\<lparr>queue := qs' @ [QSignal v], completedValue := gpu_item q (completedValue s)\<rparr>" qs']
    show ?thesis by simp
  qed
qed

lemma gpu_run_no_signal:
  "queue s = qs @ [QSignal v] \<Longrightarrow> no_signal qs \<Longrightarrow>
   (\<exists>qs'. no_signal qs' \<and> queue (gpu_run n s) = qs' @ [QSignal v] \<and>
          completedValue (gpu_run n s) = completedValue s) \<or>
   (queue (gpu_run n s) = [] \<and> completedValue (gpu_run n s) = v)"
proof (induction n arbitrary: s qs)
  case 0
  then show ?case by simp
next
  case (Suc n)
  show ?case
  proof (cases qs)
    case Nil
    with Suc.prems show ?thesis by (cases n) simp_all
  next
    case (Cons q qs')
    with Suc.prems have q: "gpu_item q (completedValue s) = completedValue s" "no_signal qs'"
      by (cases q; simp add: no_signal_def)+
    with Cons Suc.prems Suc.IH [of "s\<lparr>queue := qs' @ [QSignal v], completedValue := gpu_item q (completedValue s)\<rparr>" qs']
    show ?thesis by simp
  qed
qed

lemma gpu_wait_signal:
  "\<exists>qs' c'. gpu_wait v (qs @ [QSignal v]) c = Some (qs', c') \<and> v \<le> c'"
  by (induction qs arbitrary: c) auto

lemma gpu_wait_no_signal:
  "no_signal qs \<Longrightarrow> \<not> v \<le> c \<Longrightarrow> gpu_wait v (qs @ [QSignal v]) c = Some ([], v)"
proof (induction qs arbitrary: c)
  case Nil
  then show ?case by simp
next
  case (Cons q qs)
  then show ?case by (cases q) (simp_all add: no_signal_def)
qed

lemma gpu_wait_done: "v \<le> c \<Longrightarrow> gpu_wait v qs c = Some (qs, c)"
  by (cases qs) simp_all

lemma signals_append [simp]: "signals (xs @ ys) = signals xs @ signals ys"
  by (simp add: signals_def)

lemma signals_simps [simp]:
  "signals [] = []"
  "signals (c # cs) = (case c of Signal v \<Rightarrow> [v] | _ \<Rightarrow> []) @ signals cs"
  by (simp_all add: signals_def)

lemma WaitForPreviousFrame_returns:
  "\<exists>s' c. WaitForPreviousFrame k s = Inr s' \<and>
     calls s' = calls s @ Signal (m_fenceValue s) # fence_calls c (m_fenceValue s) \<and>
     m_fenceValue s' = m_fenceValue s + 1 \<and>
     m_fenceValue s \<le> completedValue s' \<and>
     m_device s' = m_device s \<and> m_factory s' = m_factory s \<and>
     m_frameIndex s' = m_frameIndex s \<and>
     m_backBufferRenderTarget s' = m_backBufferRenderTarget s \<and>
     shaders s' = shaders s \<and> commandList s' = commandList s \<and>
     BufferCount s' = BufferCount s \<and> backBuffer s' = backBuffer s \<and>
     renderTargetViews s' = renderTargetViews s"
proof -
  define v where "v = m_fenceValue s"
  define s2 where "s2 = (log (Signal v) (s\<lparr>queue := queue s @ [QSignal v]\<rparr>))\<lparr>m_fenceValue := v + 1\<rparr>"
  define s3 where "s3 = gpu_run k s2"
  have q2: "queue s2 = queue s @ [QSignal v]" by (simp add: s2_def)
  have W: "WaitForPreviousFrame k s =
     (if completedValue s3 < v
      then (case gpu_wait v (queue s3) (completedValue s3) of
              None \<Rightarrow> Inl WaitsForever
            | Some (qs, c) \<Rightarrow>
                Inr (log WaitForSingleObject
                       (log (SetEventOnCompletion v)
                          ((log (GetCompletedValue (completedValue s3)) s3)\<lparr>queue := qs, completedValue := c\<rparr>))))
      else Inr (log (GetCompletedValue (completedValue s3)) s3))"
    by (simp add: WaitForPreviousFrame_def Let_def v_def s2_def s3_def cong: option.case_cong prod.case_cong)
  show ?thesis
  proof (cases "completedValue s3 < v")
    case False
    then show ?thesis
      unfolding W by (simp add: fence_calls_def s3_def s2_def v_def [symmetric])
  next
    case True
    from gpu_run_signal [OF q2, of k] True obtain qs' where "queue s3 = qs' @ [QSignal v]"
      by (auto simp: s3_def)
    with gpu_wait_signal [of v qs' "completedValue s3"] obtain qs c where
      "gpu_wait v (queue s3) (completedValue s3) = Some (qs, c)" "v \<le> c" by auto
    with True show ?thesis
      unfolding W by (simp add: fence_calls_def s3_def s2_def v_def [symmetric])
  qed
qed


lemma WaitForPreviousFrame_Inr:
  assumes "WaitForPreviousFrame k s = Inr s'"
  shows "(\<exists>c. calls s' = calls s @ Signal (m_fenceValue s) # fence_calls c (m_fenceValue s)) \<and>
     m_fenceValue s' = m_fenceValue s + 1 \<and>
     m_fenceValue s \<le> completedValue s' \<and>
     m_device s' = m_device s \<and> m_factory s' = m_factory s \<and>
     m_frameIndex s' = m_frameIndex s \<and>
     m_backBufferRenderTarget s' = m_backBufferRenderTarget s \<and>
     shaders s' = shaders s \<and> commandList s' = commandList s \<and>
     BufferCount s' = BufferCount s \<and> backBuffer s' = backBuffer s \<and>
     renderTargetViews s' = renderTargetViews s"
  using WaitForPreviousFrame_returns [of k s] assms by auto

lemma WaitForPreviousFrame_drains:
  assumes "WaitForPreviousFrame k s = Inr s'" "no_signal (queue s)" "completedValue s < m_fenceValue s"
  shows "queue s' = [] \<and> completedValue s' = m_fenceValue s"
proof -
  define v where "v = m_fenceValue s"
  define s2 where "s2 = (log (Signal v) (s\<lparr>queue := queue s @ [QSignal v]\<rparr>))\<lparr>m_fenceValue := v + 1\<rparr>"
  define s3 where "s3 = gpu_run k s2"
  have q2: "queue s2 = queue s @ [QSignal v]" "completedValue s2 = completedValue s" by (simp_all add: s2_def)
  have W: "WaitForPreviousFrame k s =
     (if completedValue s3 < v
      then (case gpu_wait v (queue s3) (completedValue s3) of
              None \<Rightarrow> Inl WaitsForever
            | Some (qs, c) \<Rightarrow>
                Inr (log WaitForSingleObject
                       (log (SetEventOnCompletion v)
                          ((log (GetCompletedValue (completedValue s3)) s3)\<lparr>queue := qs, completedValue := c\<rparr>))))
      else Inr (log (GetCompletedValue (completedValue s3)) s3))"
    by (simp add: WaitForPreviousFrame_def Let_def v_def s2_def s3_def cong: option.case_cong prod.case_cong)
  from gpu_run_no_signal [OF q2(1) assms(2), of k]
  consider qs' where "no_signal qs'" "queue s3 = qs' @ [QSignal v]" "completedValue s3 = completedValue s"
    | "queue s3 = []" "completedValue s3 = v"
    by (auto simp: s3_def q2)
  then show ?thesis
  proof cases
    case 1
    with assms(3) have lt: "completedValue s3 < v" by (simp add: v_def)
    then have "\<not> v \<le> completedValue s3" by simp
    from gpu_wait_no_signal [OF 1(1) this] 1 lt assms(1) show ?thesis
      unfolding W by (auto simp: v_def)
  next
    case 2
    with assms(1) show ?thesis unfolding W by (auto simp: v_def)
  qed
qed

lemma Render_Inr:
  assumes "Render f s = Inr s'"
  shows "AllocatorReset_hr f = 0 \<and> ListReset_hr f = 0 \<and> Close_hr f = 0 \<and> Present_hr f = 0 \<and>
     m_shaders (shaders s) Triangle \<noteq> None \<and>
     m_frameIndex s < length (m_backBufferRenderTarget s) \<and>
     (\<exists>c. calls s' = calls s @ [AllocatorReset, ListReset] @
        map Record (frame_commands (m_frameIndex s) (m_backBufferRenderTarget s ! m_frameIndex s)) @
        [Close,
         ExecuteCommandLists (frame_commands (m_frameIndex s) (m_backBufferRenderTarget s ! m_frameIndex s)),
         Present 0 0, Signal (m_fenceValue s)] @
        fence_calls c (m_fenceValue s) @
        [GetCurrentBackBufferIndex ((backBuffer s + 1) mod BufferCount s)]) \<and>
     m_frameIndex s' = (backBuffer s + 1) mod BufferCount s \<and>
     backBuffer s' = (backBuffer s + 1) mod BufferCount s \<and>
     m_fenceValue s' = m_fenceValue s + 1 \<and>
     m_fenceValue s \<le> completedValue s' \<and>
     commandList s' = frame_commands (m_frameIndex s) (m_backBufferRenderTarget s ! m_frameIndex s) \<and>
     m_device s' = m_device s \<and> m_factory s' = m_factory s \<and>
     m_backBufferRenderTarget s' = m_backBufferRenderTarget s \<and>
     shaders s' = shaders s \<and> BufferCount s' = BufferCount s \<and>
     renderTargetViews s' = renderTargetViews s"
  using assms
  unfolding Render_def BeginScene_def EndScene_def ExecuteCommandList_def Let_def and_then_eq_Inr
    backBufferRenderTarget_def GetShaders_def Present_call_def
  by (auto split: option.splits if_splits dest!: WaitForPreviousFrame_Inr simp: frame_commands_def)


lemma adapter_loop_frame:
  "(\<exists>new. calls (snd (adapter_loop p i s)) = calls s @ new \<and> list_all device_call new) \<and>
   m_factory (snd (adapter_loop p i s)) = m_factory s \<and>
   m_frameIndex (snd (adapter_loop p i s)) = m_frameIndex s \<and>
   m_fenceValue (snd (adapter_loop p i s)) = m_fenceValue s \<and>
   m_backBufferRenderTarget (snd (adapter_loop p i s)) = m_backBufferRenderTarget s \<and>
   shaders (snd (adapter_loop p i s)) = shaders s \<and>
   commandList (snd (adapter_loop p i s)) = commandList s \<and>
   queue (snd (adapter_loop p i s)) = queue s \<and>
   completedValue (snd (adapter_loop p i s)) = completedValue s \<and>
   BufferCount (snd (adapter_loop p i s)) = BufferCount s \<and>
   backBuffer (snd (adapter_loop p i s)) = backBuffer s \<and>
   renderTargetViews (snd (adapter_loop p i s)) = renderTargetViews s"
proof (induction p i s rule: adapter_loop.induct)
  case (1 p i s)
  show ?case
  proof (cases "FAILED (fst (EnumAdapters1_call p i s))")
    case True
    then show ?thesis
      by (subst (1 2 3 4 5 6 7 8 9 10 11 12) adapter_loop.simps)
         (auto simp: EnumAdapters1_call_def split: prod.splits if_splits)
  next
    case False
    obtain r a s1 where e: "EnumAdapters1_call p i s = (r, a, s1)" by (cases "EnumAdapters1_call p i s")
    obtain r2 s2 where c: "D3D12CreateDevice_call p a D3D_FEATURE_LEVEL_12_1 s1 = (r2, s2)"
      by (cases "D3D12CreateDevice_call p a D3D_FEATURE_LEVEL_12_1 s1")
    from e have s1: "s1 = log (EnumAdapters1 i r) s"
      by (auto simp: EnumAdapters1_call_def split: if_splits)
    from c have s2: "s2 = log (D3D12CreateDevice a D3D_FEATURE_LEVEL_12_1 r2)
        (s1\<lparr>m_device := if SUCCEEDED r2 then Some (Device a D3D_FEATURE_LEVEL_12_1) else None\<rparr>)"
      by (auto simp: D3D12CreateDevice_call_def Let_def)
    from False e have nf: "\<not> FAILED r" by simp
    show ?thesis
    proof (cases "SUCCEEDED r2")
      case True
      with e c nf have "adapter_loop p i s = (a, s2)"
        by (subst adapter_loop.simps) simp
      then show ?thesis by (simp add: s2 s1)
    next
      case ns: False
      with e c nf have step: "adapter_loop p i s = adapter_loop p (i + 1) s2"
        by (subst adapter_loop.simps) simp
      from "1.IH" [OF e [symmetric] refl nf c [symmetric] ns]
      show ?thesis unfolding step by (auto simp: s2 s1)
    qed
  qed
qed

lemma FindAndCreateDevice_frame:
  "(\<exists>new. calls (snd (FindAndCreateDevice p s)) = calls s @ new \<and> list_all device_call new) \<and>
   m_frameIndex (snd (FindAndCreateDevice p s)) = m_frameIndex s \<and>
   m_fenceValue (snd (FindAndCreateDevice p s)) = m_fenceValue s \<and>
   m_backBufferRenderTarget (snd (FindAndCreateDevice p s)) = m_backBufferRenderTarget s \<and>
   shaders (snd (FindAndCreateDevice p s)) = shaders s \<and>
   commandList (snd (FindAndCreateDevice p s)) = commandList s \<and>
   queue (snd (FindAndCreateDevice p s)) = queue s \<and>
   completedValue (snd (FindAndCreateDevice p s)) = completedValue s \<and>
   BufferCount (snd (FindAndCreateDevice p s)) = BufferCount s \<and>
   backBuffer (snd (FindAndCreateDevice p s)) = backBuffer s \<and>
   renderTargetViews (snd (FindAndCreateDevice p s)) = renderTargetViews s"
  using adapter_loop_frame [of p 0 "log (CreateDXGIFactory1 (CreateDXGIFactory1_hr p)) (s\<lparr>m_factory := True\<rparr>)"]
  by (auto simp: FindAndCreateDevice_unfold Let_def D3D12CreateDevice_call_def)


lemma WaitForPreviousFrame_Inr_drains:
  assumes "WaitForPreviousFrame k s = Inr s'"
  shows "(\<exists>c. calls s' = calls s @ Signal (m_fenceValue s) # fence_calls c (m_fenceValue s)) \<and>
     m_fenceValue s' = m_fenceValue s + 1 \<and>
     m_fenceValue s \<le> completedValue s' \<and>
     m_device s' = m_device s \<and> m_factory s' = m_factory s \<and>
     m_frameIndex s' = m_frameIndex s \<and>
     m_backBufferRenderTarget s' = m_backBufferRenderTarget s \<and>
     shaders s' = shaders s \<and> commandList s' = commandList s \<and>
     BufferCount s' = BufferCount s \<and> backBuffer s' = backBuffer s \<and>
     renderTargetViews s' = renderTargetViews s \<and>
     (no_signal (queue s) \<and> completedValue s < m_fenceValue s \<longrightarrow>
        queue s' = [] \<and> completedValue s' = m_fenceValue s)"
  using WaitForPreviousFrame_Inr [OF assms] WaitForPreviousFrame_drains [OF assms] by simp

lemma back_buffer_loop_Inr:
  assumes "back_buffer_loop e 0 0 s = Inr s'"
  shows "calls s' = calls s @ [GetBuffer 0, CreateRenderTargetView 0 0, GetBuffer 1, CreateRenderTargetView 1 1] \<and>
     m_backBufferRenderTarget s' = (m_backBufferRenderTarget s)[0 := Some 0, 1 := Some 1] \<and>
     renderTargetViews s' = (renderTargetViews s)
        (0 \<mapsto> (m_backBufferRenderTarget s)[0 := Some 0] ! 0,
         1 \<mapsto> (m_backBufferRenderTarget s)[0 := Some 0, 1 := Some 1] ! 1) \<and>
     m_device s' = m_device s \<and> m_factory s' = m_factory s \<and>
     m_frameIndex s' = m_frameIndex s \<and> m_fenceValue s' = m_fenceValue s \<and>
     shaders s' = shaders s \<and> commandList s' = commandList s \<and> queue s' = queue s \<and>
     completedValue s' = completedValue s \<and>
     BufferCount s' = BufferCount s \<and> backBuffer s' = backBuffer s"
  using assms
  apply (subst (asm) back_buffer_loop.simps)
  apply (simp add: FRAME_BUFFERS_def split: sum.splits)
  apply (subst (asm) back_buffer_loop.simps)
  apply (simp add: FRAME_BUFFERS_def split: sum.splits)
  apply (subst (asm) back_buffer_loop.simps)
  apply (simp add: FRAME_BUFFERS_def split: sum.splits)
  apply auto
  done

lemma CreateCommandsAndSwapChain_Inr:
  assumes "CreateCommandsAndSwapChain e s = Inr s'"
  shows "m_device s \<noteq> None \<and> m_factory s \<and>
     calls s' = calls s @ [CreateCommandQueue, CreateCommandAllocator, CreateCommandList,
                           CreateSwapChainForHwnd FRAME_BUFFERS] \<and>
     queue s' = [] \<and> commandList s' = [] \<and> BufferCount s' = FRAME_BUFFERS \<and> backBuffer s' = 0 \<and>
     m_device s' = m_device s \<and> m_factory s' = m_factory s \<and>
     m_frameIndex s' = m_frameIndex s \<and> m_fenceValue s' = m_fenceValue s \<and>
     m_backBufferRenderTarget s' = m_backBufferRenderTarget s \<and>
     shaders s' = shaders s \<and> completedValue s' = completedValue s \<and>
     renderTargetViews s' = renderTargetViews s"
  using assms unfolding CreateCommandsAndSwapChain_def
  by (auto simp: and_then_eq_Inr split: if_splits)

lemma CreateRenderTargetsAndFences_Inr:
  assumes "CreateRenderTargetsAndFences e s = Inr s'"
  shows "m_device s \<noteq> None \<and>
     calls s' = calls s @ [GetCurrentBackBufferIndex (backBuffer s), CreateDescriptorHeap FRAME_BUFFERS,
        GetBuffer 0, CreateRenderTargetView 0 0, GetBuffer 1, CreateRenderTargetView 1 1,
        CreateFence 0, CreateEvent] \<and>
     m_frameIndex s' = backBuffer s \<and> m_fenceValue s' = 1 \<and> completedValue s' = 0 \<and>
     m_backBufferRenderTarget s' = (m_backBufferRenderTarget s)[0 := Some 0, 1 := Some 1] \<and>
     renderTargetViews s' =
       [0 \<mapsto> (m_backBufferRenderTarget s)[0 := Some 0] ! 0,
        1 \<mapsto> (m_backBufferRenderTarget s)[0 := Some 0, 1 := Some 1] ! 1] \<and>
     m_device s' = m_device s \<and> m_factory s' = m_factory s \<and>
     shaders s' = shaders s \<and> commandList s' = commandList s \<and> queue s' = queue s \<and>
     BufferCount s' = BufferCount s \<and> backBuffer s' = backBuffer s"
  using assms unfolding CreateRenderTargetsAndFences_def Let_def
  by (auto simp: and_then_eq_Inr split: if_splits dest!: back_buffer_loop_Inr)

lemma ExecuteCommandList_Inr:
  assumes "ExecuteCommandList hr s = Inr s'"
  shows "hr = 0 \<and> s' = log (ExecuteCommandLists (commandList s))
                        ((log Close s)\<lparr>queue := queue s @ [QExecute (commandList s)]\<rparr>)"
  using assms unfolding ExecuteCommandList_def by (auto simp: and_then_eq_Inr)

lemma Initialize_Inr:
  assumes "Initialize e s = Inr s'" "length (m_backBufferRenderTarget s) = FRAME_BUFFERS"
  shows "m_device s' \<noteq> None \<and> m_factory s' \<and>
     (\<exists>new c. calls s' = calls s @ new @ startup_calls @ Signal 1 # fence_calls c 1 \<and>
         list_all device_call new) \<and>
     m_frameIndex s' = 0 \<and> backBuffer s' = 0 \<and> BufferCount s' = FRAME_BUFFERS \<and>
     m_fenceValue s' = 2 \<and> completedValue s' = 1 \<and> queue s' = [] \<and>
     m_backBufferRenderTarget s' = [Some 0, Some 1] \<and>
     renderTargetViews s' = [0 \<mapsto> Some 0, 1 \<mapsto> Some 1] \<and>
     scene e = Some (shaders s') \<and> commandList s' = [SceneUpload]"
proof -
  define s0 where "s0 = snd (FindAndCreateDevice (machine e) s)"
  note F = FindAndCreateDevice_frame [of "machine e" s, folded s0_def]
  from F obtain new where new: "calls s0 = calls s @ new" "list_all device_call new" by blast
  from assms(2) obtain x y where xy: "m_backBufferRenderTarget s = [x, y]"
    by (cases "m_backBufferRenderTarget s"; cases "tl (m_backBufferRenderTarget s)")
       (auto simp: FRAME_BUFFERS_def)
  from assms(1) obtain s1 s2 s3 s4 where
    1: "CreateCommandsAndSwapChain e s0 = Inr s1" and
    2: "CreateRenderTargetsAndFences e s1 = Inr s2" and
    3: "PrepareScene e s2 = Inr s3" and
    4: "ExecuteCommandList (startup_Close_hr e) s3 = Inr s4" and
    5: "WaitForPreviousFrame (startup_progress e) s4 = Inr s'"
    unfolding Initialize_def s0_def [symmetric] by (auto simp: and_then_eq_Inr)
  note A = CreateCommandsAndSwapChain_Inr [OF 1]
  note B = CreateRenderTargetsAndFences_Inr [OF 2]
  from 3 obtain sh where C: "scene e = Some sh" "s3 = record_cmd SceneUpload (s2\<lparr>shaders := sh\<rparr>)"
    by (auto simp: PrepareScene_def split: option.splits)
  note D = ExecuteCommandList_Inr [OF 4]
  have q4: "queue s4 = [QExecute [SceneUpload]]" "completedValue s4 = 0" "m_fenceValue s4 = 1"
    using A B C D by simp_all
  then have "no_signal (queue s4) \<and> completedValue s4 < m_fenceValue s4"
    by (simp add: no_signal_def)
  with WaitForPreviousFrame_Inr_drains [OF 5] q4
  have E: "(\<exists>c. calls s' = calls s4 @ Signal 1 # fence_calls c 1)"
     "m_fenceValue s' = 2" "queue s' = []" "completedValue s' = 1"
     "m_device s' = m_device s4" "m_factory s' = m_factory s4"
     "m_frameIndex s' = m_frameIndex s4"
     "m_backBufferRenderTarget s' = m_backBufferRenderTarget s4"
     "shaders s' = shaders s4" "commandList s' = commandList s4"
     "BufferCount s' = BufferCount s4" "backBuffer s' = backBuffer s4"
     "renderTargetViews s' = renderTargetViews s4"
    by simp_all
  from E(1) obtain c where c: "calls s' = calls s4 @ Signal 1 # fence_calls c 1" by blast
  have pre: "calls s4 = calls s @ new @ startup_calls"
    using A B C D new by (simp add: startup_calls_def)
  have ex: "\<exists>new c. calls s' = calls s @ new @ startup_calls @ Signal 1 # fence_calls c 1 \<and>
         list_all device_call new"
    using c pre new(2) by auto
  from A B C D E(2-) F xy ex show ?thesis by simp
qed

section \<open>Invariants of the frame loop\<close>

lemma Frames_append: "Frames (fs @ gs) s = and_then (Frames fs s) (Frames gs)"
  by (induction fs arbitrary: s) (auto simp: and_then_def split: sum.splits)

lemma Frames_snoc_Inr:
  "Frames (fs @ [f]) s = Inr s' \<longleftrightarrow> (\<exists>s1. Frames fs s = Inr s1 \<and> Render f s1 = Inr s')"
  by (simp add: Frames_append and_then_eq_Inr)

lemma Frames_invariant:
  assumes "Frames fs s = Inr s'" and "Q 0 s"
    and "\<And>n f s s'. n < length fs \<Longrightarrow> Q n s \<Longrightarrow> Render f s = Inr s' \<Longrightarrow> Q (Suc n) s'"
  shows "Q (length fs) s'"
  using assms
proof (induction fs arbitrary: s' rule: rev_induct)
  case Nil
  then show ?case by simp
next
  case (snoc f fs)
  from snoc.prems(1) obtain s1 where 1: "Frames fs s = Inr s1" "Render f s1 = Inr s'"
    by (auto simp: Frames_snoc_Inr)
  have "Q (length fs) s1"
    by (rule snoc.IH [OF 1(1) snoc.prems(2)]) (rule snoc.prems(3); simp)
  with 1(2) snoc.prems(3) [of "length fs" s1 f s'] show ?case by simp
qed

lemma next_buffer: "Suc b mod 2 \<noteq> b" "((b::nat) + 1) mod 2 \<noteq> b"
  by presburger+

lemma Render_ready:
  assumes "Render f s = Inr s'" "ready s"
  shows "ready s' \<and> m_frameIndex s' = (m_frameIndex s + 1) mod FRAME_BUFFERS \<and>
         m_frameIndex s' \<noteq> m_frameIndex s"
  using Render_Inr [OF assms(1)] assms(2)
  by (auto simp: ready_def FRAME_BUFFERS_def next_buffer)

lemma word_succ_less: "c + 1 = v \<Longrightarrow> v \<noteq> 0 \<Longrightarrow> c < v" for c v :: "'a::len word"
  by unat_arith

lemma Render_queue:
  assumes "Render f s = Inr s'"
  shows "\<exists>s1 s2. WaitForPreviousFrame (progress f) s1 = Inr s2 \<and>
     queue s1 = queue s @
       [QExecute (frame_commands (m_frameIndex s) (m_backBufferRenderTarget s ! m_frameIndex s)), QPresent] \<and>
     completedValue s1 = completedValue s \<and> m_fenceValue s1 = m_fenceValue s \<and>
     queue s' = queue s2 \<and> completedValue s' = completedValue s2"
  using assms
  unfolding Render_def BeginScene_def EndScene_def ExecuteCommandList_def Let_def
    backBufferRenderTarget_def GetShaders_def Present_call_def
  apply (clarsimp simp: and_then_eq_Inr frame_commands_def split: option.splits if_splits)
  subgoal for found d s2
    apply (rule exI, rule exI [of _ s2], rule conjI, assumption)
    apply simp
    done
  done

lemma Render_idle:
  assumes "Render f s = Inr s'" "idle s" "m_fenceValue s \<noteq> 0"
  shows "idle s'"
proof -
  from Render_queue [OF assms(1)] obtain s1 s2 where
    w: "WaitForPreviousFrame (progress f) s1 = Inr s2"
    and q: "queue s1 = queue s @
       [QExecute (frame_commands (m_frameIndex s) (m_backBufferRenderTarget s ! m_frameIndex s)), QPresent]"
           "completedValue s1 = completedValue s" "m_fenceValue s1 = m_fenceValue s"
    and s': "queue s' = queue s2" "completedValue s' = completedValue s2"
    by blast
  from assms(2,3) have lt: "completedValue s < m_fenceValue s"
    unfolding idle_def by (simp add: word_succ_less)
  from assms(2) q have "no_signal (queue s1)"
    by (simp add: idle_def no_signal_def)
  from WaitForPreviousFrame_drains [OF w this] lt q
  have "queue s2 = [] \<and> completedValue s2 = m_fenceValue s" by simp
  with s' Render_Inr [OF assms(1)] show ?thesis
    by (simp add: idle_def)
qed

text \<open>At the wrap of the counter the frame returns without waiting.\<close>

lemma Render_wrap:
  assumes "Render f s = Inr s'" "idle s" "m_fenceValue s = 0" "progress f = 0"
  shows "queue s' =
     [QExecute (frame_commands (m_frameIndex s) (m_backBufferRenderTarget s ! m_frameIndex s)),
      QPresent, QSignal 0]"
proof -
  from Render_queue [OF assms(1)] obtain s1 s2 where
    w: "WaitForPreviousFrame (progress f) s1 = Inr s2"
    and q: "queue s1 = queue s @
       [QExecute (frame_commands (m_frameIndex s) (m_backBufferRenderTarget s ! m_frameIndex s)), QPresent]"
           "completedValue s1 = completedValue s" "m_fenceValue s1 = m_fenceValue s"
    and s': "queue s' = queue s2" "completedValue s' = completedValue s2"
    by blast
  from w assms(3,4) q have "queue s2 = queue s1 @ [QSignal 0]"
    by (auto simp: WaitForPreviousFrame_def Let_def)
  with s' q assms(2) show ?thesis by (simp add: idle_def)
qed

lemma Render_returns:
  assumes "ready s" "frame_ok f" "m_shaders (shaders s) Triangle \<noteq> None"
  shows "\<exists>s'. Render f s = Inr s'"
proof -
  from assms(1) have i: "m_frameIndex s < length (m_backBufferRenderTarget s)" "m_device s \<noteq> None"
    by (auto simp: ready_def FRAME_BUFFERS_def)
  from assms(2,3) i show ?thesis
    unfolding Render_def BeginScene_def EndScene_def ExecuteCommandList_def Let_def
      backBufferRenderTarget_def GetShaders_def frame_ok_def
    using WaitForPreviousFrame_returns
    by (auto simp: and_then_eq_Inr split: option.splits)
qed

section \<open>What a log shows\<close>

lemma presents_simps [simp]:
  "presents [] = []"
  "presents (c # cs) = (case c of Present i fl \<Rightarrow> [c] | _ \<Rightarrow> []) @ presents cs"
  "presents (xs @ ys) = presents xs @ presents ys"
  by (simp_all add: presents_def split: call.splits)

lemma submissions_simps [simp]:
  "submissions [] = []"
  "submissions (c # cs) = (case c of ExecuteCommandLists l \<Rightarrow> [l] | _ \<Rightarrow> []) @ submissions cs"
  "submissions (xs @ ys) = submissions xs @ submissions ys"
  by (simp_all add: submissions_def)

lemma recorded_simps [simp]:
  "recorded [] = []"
  "recorded (c # cs) = (case c of Record x \<Rightarrow> [x] | _ \<Rightarrow> []) @ recorded cs"
  "recorded (xs @ ys) = recorded xs @ recorded ys"
  by (simp_all add: recorded_def)

lemma recorded_map_Record [simp]: "recorded (map Record xs) = xs"
  by (induction xs) simp_all

lemma fence_calls_projections [simp]:
  "signals (fence_calls c v) = []"
  "presents (fence_calls c v) = []"
  "submissions (fence_calls c v) = []"
  "recorded (fence_calls c v) = []"
  by (simp_all add: fence_calls_def)

lemma device_calls_projections:
  "list_all device_call cs \<Longrightarrow>
   signals cs = [] \<and> presents cs = [] \<and> submissions cs = [] \<and> recorded cs = []"
proof (induction cs)
  case Nil
  then show ?case by simp
next
  case (Cons c cs)
  then show ?case by (cases c) simp_all
qed

lemma indices_simps [simp]:
  "indices [] = []"
  "indices (c # cs) = (case c of GetCurrentBackBufferIndex i \<Rightarrow> [i] | _ \<Rightarrow> []) @ indices cs"
  "indices (xs @ ys) = indices xs @ indices ys"
  by (simp_all add: indices_def)

lemma reported_index_indices:
  "reported_index cs = (case indices cs of [] \<Rightarrow> None | is \<Rightarrow> Some (last is))"
  by (simp add: reported_index_def)

lemma reported_index_snoc [simp]:
  "reported_index (cs @ [GetCurrentBackBufferIndex i]) = Some i"
proof (cases "indices cs @ [i]")
  case Nil
  then show ?thesis by simp
next
  case (Cons x xs)
  then have "last (x # xs) = i" by (metis last_snoc)
  with Cons show ?thesis by (simp add: reported_index_indices)
qed

lemma track_append:
  "track (xs @ ys) tag = (case track xs tag of None \<Rightarrow> None | Some t \<Rightarrow> track ys t)"
  by (induction xs tag rule: track.induct) (simp_all del: fun_upd_apply)

lemma track_frame_commands [simp]:
  "track (frame_commands i r) presentable = Some presentable"
proof -
  have "presentable(r := D3D12_RESOURCE_STATE_RENDER_TARGET, r := D3D12_RESOURCE_STATE_PRESENT) = presentable"
    by (auto simp: presentable_def)
  then show ?thesis
    by (simp add: frame_commands_def presentable_def [of r])
qed

lemma Initialize_new:
  assumes "Initialize e D3D_new = Inr s"
  shows "ready s \<and> idle s \<and> m_fenceValue s = 2 \<and> m_frameIndex s = 0 \<and>
     signals (calls s) = [1] \<and> presents (calls s) = [] \<and>
     submissions (calls s) = [[SceneUpload]] \<and> recorded (calls s) = [SceneUpload] \<and>
     reported_index (calls s) = Some 0 \<and> scene e = Some (shaders s)"
proof -
  have "length (m_backBufferRenderTarget D3D_new) = FRAME_BUFFERS"
    by (simp add: D3D_new_def)
  note I = Initialize_Inr [OF assms this]
  then obtain new c where
    c: "calls s = new @ startup_calls @ Signal 1 # fence_calls c 1" "list_all device_call new"
    by (auto simp: D3D_new_def)
  from c(2) have "indices new = []"
    by (induction new) (auto split: call.splits)
  with c(1) have "reported_index (calls s) = Some 0"
    by (simp add: reported_index_indices startup_calls_def fence_calls_def)
  with I c device_calls_projections [OF c(2)] show ?thesis
    by (simp add: ready_def idle_def FRAME_BUFFERS_def startup_calls_def)
qed

lemma Render_projections:
  assumes "Render f s = Inr s'"
  shows "signals (calls s') = signals (calls s) @ [m_fenceValue s]"
    "presents (calls s') = presents (calls s) @ [Present 0 0]"
    "submissions (calls s') = submissions (calls s) @
       [frame_commands (m_frameIndex s) (m_backBufferRenderTarget s ! m_frameIndex s)]"
    "recorded (calls s') = recorded (calls s) @
       frame_commands (m_frameIndex s) (m_backBufferRenderTarget s ! m_frameIndex s)"
    "reported_index (calls s') = Some (m_frameIndex s')"
proof -
  from Render_Inr [OF assms] obtain c where
    c: "calls s' = calls s @ [AllocatorReset, ListReset] @
        map Record (frame_commands (m_frameIndex s) (m_backBufferRenderTarget s ! m_frameIndex s)) @
        [Close,
         ExecuteCommandLists (frame_commands (m_frameIndex s) (m_backBufferRenderTarget s ! m_frameIndex s)),
         Present 0 0, Signal (m_fenceValue s)] @
        fence_calls c (m_fenceValue s) @
        [GetCurrentBackBufferIndex ((backBuffer s + 1) mod BufferCount s)]"
    and i: "m_frameIndex s' = (backBuffer s + 1) mod BufferCount s"
    by blast
  have m: "signals (map Record xs) = []" "presents (map Record xs) = []"
    "submissions (map Record xs) = []" for xs
    by (induction xs) simp_all
  show "signals (calls s') = signals (calls s) @ [m_fenceValue s]"
    by (simp add: c m)
  show "presents (calls s') = presents (calls s) @ [Present 0 0]"
    by (simp add: c m)
  show "submissions (calls s') = submissions (calls s) @
       [frame_commands (m_frameIndex s) (m_backBufferRenderTarget s ! m_frameIndex s)]"
    by (simp add: c m)
  show "recorded (calls s') = recorded (calls s) @
       frame_commands (m_frameIndex s) (m_backBufferRenderTarget s ! m_frameIndex s)"
    by (simp add: c)
  show "reported_index (calls s') = Some (m_frameIndex s')"
    unfolding i c by (simp only: append_assoc [symmetric] reported_index_snoc)
qed

lemma Frames_ready:
  assumes "Frames fs s = Inr s'" "ready s"
  shows "ready s' \<and> m_frameIndex s' = (m_frameIndex s + length fs) mod FRAME_BUFFERS"
proof -
  from assms(2) have 0: "ready s \<and> m_frameIndex s = (m_frameIndex s + 0) mod FRAME_BUFFERS"
    by (simp add: ready_def)
  show ?thesis
  proof (rule Frames_invariant [OF assms(1),
        where Q = "\<lambda>n t. ready t \<and> m_frameIndex t = (m_frameIndex s + n) mod FRAME_BUFFERS"])
    show "ready s \<and> m_frameIndex s = (m_frameIndex s + 0) mod FRAME_BUFFERS" by (rule 0)
  next
    fix n f t t'
    assume "ready t \<and> m_frameIndex t = (m_frameIndex s + n) mod FRAME_BUFFERS" "Render f t = Inr t'"
    with Render_ready [of f t t']
    show "ready t' \<and> m_frameIndex t' = (m_frameIndex s + Suc n) mod FRAME_BUFFERS"
      by (simp add: FRAME_BUFFERS_def mod_Suc_eq)
  qed
qed

lemma Frames_projections:
  assumes "Frames fs s = Inr s'"
  shows "presents (calls s') = presents (calls s) @ replicate (length fs) (Present 0 0) \<and>
     signals (calls s') = signals (calls s) @ map (\<lambda>j. m_fenceValue s + of_nat j) [0..<length fs] \<and>
     m_fenceValue s' = m_fenceValue s + of_nat (length fs) \<and>
     shaders s' = shaders s"
proof (rule Frames_invariant [OF assms,
      where Q = "\<lambda>n t. presents (calls t) = presents (calls s) @ replicate n (Present 0 0) \<and>
     signals (calls t) = signals (calls s) @ map (\<lambda>j. m_fenceValue s + of_nat j) [0..<n] \<and>
     m_fenceValue t = m_fenceValue s + of_nat n \<and> shaders t = shaders s"])
  show "presents (calls s) = presents (calls s) @ replicate 0 (Present 0 0) \<and>
     signals (calls s) = signals (calls s) @ map (\<lambda>j. m_fenceValue s + of_nat j) [0..<0] \<and>
     m_fenceValue s = m_fenceValue s + of_nat 0 \<and> shaders s = shaders s"
    by simp
next
  fix n f t t'
  assume "presents (calls t) = presents (calls s) @ replicate n (Present 0 0) \<and>
     signals (calls t) = signals (calls s) @ map (\<lambda>j. m_fenceValue s + of_nat j) [0..<n] \<and>
     m_fenceValue t = m_fenceValue s + of_nat n \<and> shaders t = shaders s"
    and r: "Render f t = Inr t'"
  with Render_projections(1,2) [OF r] Render_Inr [OF r]
  show "presents (calls t') = presents (calls s) @ replicate (Suc n) (Present 0 0) \<and>
     signals (calls t') = signals (calls s) @ map (\<lambda>j. m_fenceValue s + of_nat j) [0..<Suc n] \<and>
     m_fenceValue t' = m_fenceValue s + of_nat (Suc n) \<and> shaders t' = shaders s"
    by (simp add: replicate_append_same)
qed

lemma Frames_log:
  assumes "Frames fs s = Inr s'" "ready s"
    "track (recorded (calls s)) presentable = Some presentable"
    "reported_index (calls s) = Some (m_frameIndex s)"
  shows "track (recorded (calls s')) presentable = Some presentable \<and>
     reported_index (calls s') = Some (m_frameIndex s')"
proof -
  have "ready s' \<and> track (recorded (calls s')) presentable = Some presentable \<and>
     reported_index (calls s') = Some (m_frameIndex s')"
  proof (rule Frames_invariant [OF assms(1),
      where Q = "\<lambda>n t. ready t \<and> track (recorded (calls t)) presentable = Some presentable \<and>
         reported_index (calls t) = Some (m_frameIndex t)"])
    show "ready s \<and> track (recorded (calls s)) presentable = Some presentable \<and>
         reported_index (calls s) = Some (m_frameIndex s)"
      using assms by simp
  next
    fix n f t t'
    assume "ready t \<and> track (recorded (calls t)) presentable = Some presentable \<and>
         reported_index (calls t) = Some (m_frameIndex t)"
      and r: "Render f t = Inr t'"
    with Render_projections(4,5) [OF r] Render_ready [OF r]
    show "ready t' \<and> track (recorded (calls t')) presentable = Some presentable \<and>
         reported_index (calls t') = Some (m_frameIndex t')"
      by (simp add: track_append)
  qed
  then show ?thesis by simp
qed

lemma Frames_returns:
  "ready s \<Longrightarrow> list_all frame_ok fs \<Longrightarrow> m_shaders (shaders s) Triangle \<noteq> None \<Longrightarrow>
   \<exists>s'. Frames fs s = Inr s'"
proof (induction fs arbitrary: s)
  case Nil
  then show ?case by simp
next
  case (Cons f fs)
  from Cons.prems Render_returns [of s f] obtain s1 where 1: "Render f s = Inr s1" by auto
  from Render_ready [OF 1 Cons.prems(1)] Render_Inr [OF 1] Cons.prems
  have "ready s1" "m_shaders (shaders s1) Triangle \<noteq> None" by simp_all
  from Cons.IH [OF this(1) _ this(2)] Cons.prems(2) 1 show ?case by simp
qed

lemma Frames_idle:
  assumes "Frames fs s = Inr s'" "idle s" "0 < unat (m_fenceValue s)"
    "unat (m_fenceValue s) + length fs \<le> 2 ^ 64"
  shows "idle s'"
proof -
  have "idle s' \<and> m_fenceValue s' = m_fenceValue s + of_nat (length fs)"
  proof (rule Frames_invariant [OF assms(1),
      where Q = "\<lambda>n t. idle t \<and> m_fenceValue t = m_fenceValue s + of_nat n"])
    show "idle s \<and> m_fenceValue s = m_fenceValue s + of_nat 0" using assms(2) by simp
  next
    fix n f t t'
    assume n: "n < length fs" and t: "idle t \<and> m_fenceValue t = m_fenceValue s + of_nat n"
      and r: "Render f t = Inr t'"
    from n assms(3,4) have b: "unat (m_fenceValue s) + n < 2 ^ 64" "0 < unat (m_fenceValue s) + n"
      by simp_all
    then have "unat (m_fenceValue s + of_nat n) = unat (m_fenceValue s) + n"
      by (simp add: unat_word_ariths unat_of_nat take_bit_nat_eq_self)
    with b have "m_fenceValue s + of_nat n \<noteq> 0"
      by (metis less_numeral_extra(3) unat_0)
    with t Render_idle [OF r] Render_Inr [OF r]
    show "idle t' \<and> m_fenceValue t' = m_fenceValue s + of_nat (Suc n)"
      by simp
  qed
  then show ?thesis by simp
qed

section \<open>Sessions that return\<close>

lemma FindAndCreateDevice_device:
  assumes "SUCCEEDED (CreateDXGIFactory1_hr p)"
  shows "m_factory (snd (FindAndCreateDevice p s)) \<and>
     m_device (snd (FindAndCreateDevice p s)) =
       (case find (qualifies p) (adapters p) of
          Some a \<Rightarrow> Some (Device (Some a) D3D_FEATURE_LEVEL_12_1)
        | None \<Rightarrow> if SUCCEEDED (D3D12CreateDevice_hr p None D3D_FEATURE_LEVEL_11_1)
                  then Some (Device None D3D_FEATURE_LEVEL_11_1) else None)"
proof -
  define s0 where "s0 = log (CreateDXGIFactory1 (CreateDXGIFactory1_hr p)) (s\<lparr>m_factory := True\<rparr>)"
  note L = adapter_loop_drop [of 0 p s0, simplified]
  note F = adapter_loop_frame [of p 0 s0]
  have f: "m_factory s0" by (simp add: s0_def)
  show ?thesis
  proof (cases "find (qualifies p) (adapters p)")
    case None
    with assms L F f show ?thesis
      by (simp add: FindAndCreateDevice_unfold Let_def s0_def [symmetric] FAILED_iff
            D3D12CreateDevice_call_def)
  next
    case (Some a)
    then have "qualifies p a" by (auto simp: find_Some_iff)
    with Some assms L F f show ?thesis
      by (simp add: FindAndCreateDevice_unfold Let_def s0_def [symmetric] FAILED_iff qualifies_def
            D3D12CreateDevice_call_def)
  qed
qed

lemma back_buffer_loop_returns:
  assumes "GetBuffer_hr e 0 = 0" "GetBuffer_hr e 1 = 0"
  shows "\<exists>s'. back_buffer_loop e 0 0 s = Inr s'"
proof -
  from assms(2) have 1: "GetBuffer_hr e (Suc 0) = 0" by simp
  have 2: "back_buffer_loop e (Suc (Suc 0)) h t = Inr t" for h t
    by (subst back_buffer_loop.simps) (simp add: FRAME_BUFFERS_def)
  have 3: "\<exists>t'. back_buffer_loop e (Suc 0) h t = Inr t'" for h t
    by (subst back_buffer_loop.simps) (simp add: FRAME_BUFFERS_def 1 2)
  show ?thesis
    by (subst back_buffer_loop.simps) (simp add: FRAME_BUFFERS_def assms(1) 3)
qed

lemma Initialize_returns:
  assumes "m_device (snd (FindAndCreateDevice (machine e) s)) \<noteq> None"
    "m_factory (snd (FindAndCreateDevice (machine e) s))"
    "CreateCommandQueue_hr e = 0" "CreateCommandAllocator_hr e = 0" "CreateCommandList_hr e = 0"
    "CreateSwapChainForHwnd_hr e = 0" "CreateDescriptorHeap_hr e = 0"
    "GetBuffer_hr e 0 = 0" "GetBuffer_hr e 1 = 0" "CreateFence_hr e = 0"
    "scene e \<noteq> None" "startup_Close_hr e = 0"
  shows "\<exists>s'. Initialize e s = Inr s'"
proof -
  define s0 where "s0 = snd (FindAndCreateDevice (machine e) s)"
  from assms obtain s1 where 1: "CreateCommandsAndSwapChain e s0 = Inr s1"
    by (auto simp: CreateCommandsAndSwapChain_def s0_def)
  note A = CreateCommandsAndSwapChain_Inr [OF 1]
  define s1' where "s1' = log (CreateDescriptorHeap FRAME_BUFFERS)
                       ((log (GetCurrentBackBufferIndex (backBuffer s1)) (s1\<lparr>m_frameIndex := backBuffer s1\<rparr>))
                          \<lparr>renderTargetViews := Map.empty\<rparr>)"
  from back_buffer_loop_returns [OF assms(8,9), of s1'] obtain s1'' where
    l: "back_buffer_loop e 0 0 s1' = Inr s1''" by blast
  have "CreateRenderTargetsAndFences e s1 =
     and_then (back_buffer_loop e 0 0 s1') (\<lambda>s.
        and_then (assert_not A_CreateFence (CreateFence_hr e)
                    (log (CreateFence 0) (s\<lparr>completedValue := 0\<rparr>))) (\<lambda>s.
          Inr (log CreateEvent (s\<lparr>m_fenceValue := 1\<rparr>))))"
    unfolding CreateRenderTargetsAndFences_def Let_def s1'_def using A assms(1,7)
    by (auto simp: s0_def)
  with l assms(10) obtain s2 where 2: "CreateRenderTargetsAndFences e s1 = Inr s2"
    by simp
  from assms(11) obtain s3 where 3: "PrepareScene e s2 = Inr s3"
    by (auto simp: PrepareScene_def)
  from assms(12) obtain s4 where 4: "ExecuteCommandList (startup_Close_hr e) s3 = Inr s4"
    by (auto simp: ExecuteCommandList_def)
  from WaitForPreviousFrame_returns [of "startup_progress e" s4] obtain s' where
    5: "WaitForPreviousFrame (startup_progress e) s4 = Inr s'" by blast
  from 1 2 3 4 5 show ?thesis
    by (simp add: Initialize_def s0_def [symmetric])
qed

lemma startup0_returns: "\<exists>s. Initialize (startup0\<lparr>startup_progress := k\<rparr>) D3D_new = Inr s"
proof (rule Initialize_returns)
  have m: "machine (startup0\<lparr>startup_progress := k\<rparr>) = machine0" by (simp add: startup0_def)
  have "SUCCEEDED (CreateDXGIFactory1_hr machine0)"
    by (simp add: machine0_def SUCCEEDED_def)
  from FindAndCreateDevice_device [OF this, of D3D_new]
  show "m_device (snd (FindAndCreateDevice (machine (startup0\<lparr>startup_progress := k\<rparr>)) D3D_new)) \<noteq> None"
    "m_factory (snd (FindAndCreateDevice (machine (startup0\<lparr>startup_progress := k\<rparr>)) D3D_new))"
    unfolding m by (simp_all add: machine0_def qualifies_def SUCCEEDED_def)
qed (simp_all add: startup0_def)

lemma Session_returns:
  assumes "list_all frame_ok fs"
  shows "\<exists>s. Session (startup0\<lparr>startup_progress := k\<rparr>) fs = Inr s"
proof -
  from startup0_returns [of k] obtain s0 where
    0: "Initialize (startup0\<lparr>startup_progress := k\<rparr>) D3D_new = Inr s0" by blast
  from Initialize_new [OF 0] have "shaders s0 = scene0"
    by (simp add: startup0_def)
  with Initialize_new [OF 0] have "ready s0" "m_shaders (shaders s0) Triangle \<noteq> None"
    by (simp_all add: scene0_def)
  from Frames_returns [OF this(1) assms this(2)] 0 show ?thesis
    by (simp add: Session_def)
qed

lemma Session_Inr:
  "Session e fs = Inr s \<longleftrightarrow> (\<exists>s0. Initialize e D3D_new = Inr s0 \<and> Frames fs s0 = Inr s)"
  by (simp add: Session_def and_then_eq_Inr)

lemma Session_snoc:
  "Session e (fs @ [f]) = Inr s' \<longleftrightarrow> (\<exists>s. Session e fs = Inr s \<and> Render f s = Inr s')"
  unfolding Session_Inr Frames_snoc_Inr by blast

section \<open>The frame index\<close>



section \<open>Submission and presentation\<close>

text \<open>
  C5. A call of \<^verbatim>\<open>Render\<close> that returns has closed the command list once, submitted
  it once and then presented once, with sync interval 0 and no flags; the presentation
  comes after the submission of all the commands the frame recorded. So the frames of
  a session present once each. The call returns whenever its four assertions pass, on
  an object \<^verbatim>\<open>Initialize\<close> has set up with a \<open>Triangle\<close> entry.
\<close>

theorem one_submission_one_present:
  "(Render f s = Inr s' \<longrightarrow>
      (\<exists>c. calls s' = calls s @ [AllocatorReset, ListReset] @
         map Record (frame_commands (m_frameIndex s) (m_backBufferRenderTarget s ! m_frameIndex s)) @
         [Close,
          ExecuteCommandLists (frame_commands (m_frameIndex s) (m_backBufferRenderTarget s ! m_frameIndex s)),
          Present 0 0, Signal (m_fenceValue s)] @
         fence_calls c (m_fenceValue s) @ [GetCurrentBackBufferIndex (m_frameIndex s')]) \<and>
      submissions (calls s') = submissions (calls s) @
         [frame_commands (m_frameIndex s) (m_backBufferRenderTarget s ! m_frameIndex s)] \<and>
      presents (calls s') = presents (calls s) @ [Present 0 0]) \<and>
   (Frames fs s = Inr s' \<longrightarrow>
      presents (calls s') = presents (calls s) @ replicate (length fs) (Present 0 0)) \<and>
   (Session e fs = Inr s' \<longrightarrow> presents (calls s') = replicate (length fs) (Present 0 0)) \<and>
   (ready s \<and> frame_ok f \<and> m_shaders (shaders s) Triangle \<noteq> None \<longrightarrow> (\<exists>t. Render f s = Inr t))"
proof (intro conjI impI)
  assume r: "Render f s = Inr s'"
  from Render_Inr [OF r]
  show "\<exists>c. calls s' = calls s @ [AllocatorReset, ListReset] @
         map Record (frame_commands (m_frameIndex s) (m_backBufferRenderTarget s ! m_frameIndex s)) @
         [Close,
          ExecuteCommandLists (frame_commands (m_frameIndex s) (m_backBufferRenderTarget s ! m_frameIndex s)),
          Present 0 0, Signal (m_fenceValue s)] @
         fence_calls c (m_fenceValue s) @ [GetCurrentBackBufferIndex (m_frameIndex s')]"
    by auto
  from Render_projections [OF r]
  show "submissions (calls s') = submissions (calls s) @
         [frame_commands (m_frameIndex s) (m_backBufferRenderTarget s ! m_frameIndex s)]"
    "presents (calls s') = presents (calls s) @ [Present 0 0]"
    by simp_all
next
  assume "Frames fs s = Inr s'"
  from Frames_projections [OF this]
  show "presents (calls s') = presents (calls s) @ replicate (length fs) (Present 0 0)"
    by simp
next
  assume "Session e fs = Inr s'"
  then obtain s0 where 0: "Initialize e D3D_new = Inr s0" and fs: "Frames fs s0 = Inr s'"
    by (auto simp: Session_Inr)
  from Frames_projections [OF fs] Initialize_new [OF 0]
  show "presents (calls s') = replicate (length fs) (Present 0 0)"
    by simp
next
  assume "ready s \<and> frame_ok f \<and> m_shaders (shaders s) Triangle \<noteq> None"
  then show "\<exists>t. Render f s = Inr t"
    by (simp add: Render_returns)
qed

theorem one_submission_one_present_witness:
  "\<exists>s s'. Session startup0 [frame0, frame1] = Inr s \<and> Render frame0 s = Inr s' \<and>
     presents (calls s) = [Present 0 0, Present 0 0] \<and>
     presents (calls s') = [Present 0 0, Present 0 0, Present 0 0] \<and>
     submissions (calls s') = submissions (calls s) @
       [frame_commands (m_frameIndex s) (m_backBufferRenderTarget s ! m_frameIndex s)]"
proof -
  have "list_all frame_ok ([frame0, frame1] @ [frame0])"
    by (simp add: frame_ok_def frame0_def frame1_def)
  from Session_returns [OF this, of 0] obtain s s' where
    s: "Session startup0 [frame0, frame1] = Inr s" and s': "Render frame0 s = Inr s'"
    unfolding Session_snoc by (auto simp: startup0_def)
  from one_submission_one_present [of frame0 s s' "[frame0, frame1]" startup0] s s'
    one_submission_one_present [of frame0 s s "[frame0, frame1]" startup0]
  show ?thesis by (intro exI [of _ s] exI [of _ s']) simp
qed

section \<open>Transitions of the back buffer\<close>

text \<open>
  C4. The commands a returning \<^verbatim>\<open>Render\<close> records are, in this order: the state
  settings, one barrier that takes the current back buffer from \<^verbatim>\<open>PRESENT\<close> to
  \<^verbatim>\<open>RENDER_TARGET\<close>, the render target and its clear, the draw, and one barrier that
  takes the buffer back to \<^verbatim>\<open>PRESENT\<close>; they are all recorded before the list is
  closed, submitted and presented, and nothing is recorded after. In a session the
  barriers name the buffer whose view is cleared, every barrier finds its buffer
  in the state it starts from, and after each frame, the moment of its presentation
  included, the state recorded for every back buffer is \<^verbatim>\<open>PRESENT\<close>.
\<close>

theorem barriers_around_the_frame:
  "(Render f s = Inr s' \<longrightarrow>
      (\<exists>rest. calls s' = calls s @ [AllocatorReset, ListReset] @
         map Record
           [SetRootSignature, RSSetViewports, RSSetScissorRects,
            ResourceBarrier (m_backBufferRenderTarget s ! m_frameIndex s)
              D3D12_RESOURCE_STATE_PRESENT D3D12_RESOURCE_STATE_RENDER_TARGET,
            OMSetRenderTargets (m_frameIndex s), ClearRenderTargetView (m_frameIndex s),
            IASetPrimitiveTopology, SetRootDescriptorTable 1, BindBuffers 0 (m_frameIndex s), Draw,
            ResourceBarrier (m_backBufferRenderTarget s ! m_frameIndex s)
              D3D12_RESOURCE_STATE_RENDER_TARGET D3D12_RESOURCE_STATE_PRESENT] @
         [Close,
          ExecuteCommandLists
            [SetRootSignature, RSSetViewports, RSSetScissorRects,
             ResourceBarrier (m_backBufferRenderTarget s ! m_frameIndex s)
               D3D12_RESOURCE_STATE_PRESENT D3D12_RESOURCE_STATE_RENDER_TARGET,
             OMSetRenderTargets (m_frameIndex s), ClearRenderTargetView (m_frameIndex s),
             IASetPrimitiveTopology, SetRootDescriptorTable 1, BindBuffers 0 (m_frameIndex s), Draw,
             ResourceBarrier (m_backBufferRenderTarget s ! m_frameIndex s)
               D3D12_RESOURCE_STATE_RENDER_TARGET D3D12_RESOURCE_STATE_PRESENT],
          Present 0 0] @ rest \<and>
         recorded rest = [])) \<and>
   (Session e fs = Inr s \<longrightarrow>
      m_backBufferRenderTarget s ! m_frameIndex s = Some (m_frameIndex s) \<and>
      renderTargetViews s (m_frameIndex s) = Some (Some (m_frameIndex s)) \<and>
      track (recorded (calls s)) presentable = Some presentable)"
proof (intro conjI impI)
  assume r: "Render f s = Inr s'"
  from Render_Inr [OF r] obtain c where
    c: "calls s' = calls s @ [AllocatorReset, ListReset] @
        map Record (frame_commands (m_frameIndex s) (m_backBufferRenderTarget s ! m_frameIndex s)) @
        [Close,
         ExecuteCommandLists (frame_commands (m_frameIndex s) (m_backBufferRenderTarget s ! m_frameIndex s)),
         Present 0 0, Signal (m_fenceValue s)] @
        fence_calls c (m_fenceValue s) @
        [GetCurrentBackBufferIndex ((backBuffer s + 1) mod BufferCount s)]"
    by blast
  show "\<exists>rest. calls s' = calls s @ [AllocatorReset, ListReset] @
         map Record
           [SetRootSignature, RSSetViewports, RSSetScissorRects,
            ResourceBarrier (m_backBufferRenderTarget s ! m_frameIndex s)
              D3D12_RESOURCE_STATE_PRESENT D3D12_RESOURCE_STATE_RENDER_TARGET,
            OMSetRenderTargets (m_frameIndex s), ClearRenderTargetView (m_frameIndex s),
            IASetPrimitiveTopology, SetRootDescriptorTable 1, BindBuffers 0 (m_frameIndex s), Draw,
            ResourceBarrier (m_backBufferRenderTarget s ! m_frameIndex s)
              D3D12_RESOURCE_STATE_RENDER_TARGET D3D12_RESOURCE_STATE_PRESENT] @
         [Close,
          ExecuteCommandLists
            [SetRootSignature, RSSetViewports, RSSetScissorRects,
             ResourceBarrier (m_backBufferRenderTarget s ! m_frameIndex s)
               D3D12_RESOURCE_STATE_PRESENT D3D12_RESOURCE_STATE_RENDER_TARGET,
             OMSetRenderTargets (m_frameIndex s), ClearRenderTargetView (m_frameIndex s),
             IASetPrimitiveTopology, SetRootDescriptorTable 1, BindBuffers 0 (m_frameIndex s), Draw,
             ResourceBarrier (m_backBufferRenderTarget s ! m_frameIndex s)
               D3D12_RESOURCE_STATE_RENDER_TARGET D3D12_RESOURCE_STATE_PRESENT],
          Present 0 0] @ rest \<and>
         recorded rest = []"
    by (rule exI [of _ "Signal (m_fenceValue s) # fence_calls c (m_fenceValue s) @
        [GetCurrentBackBufferIndex ((backBuffer s + 1) mod BufferCount s)]"])
       (simp add: c frame_commands_def)
next
  assume "Session e fs = Inr s"
  then obtain s0 where 0: "Initialize e D3D_new = Inr s0" and fs: "Frames fs s0 = Inr s"
    by (auto simp: Session_Inr)
  note I = Initialize_new [OF 0]
  then have t: "track (recorded (calls s0)) presentable = Some presentable"
    and r: "reported_index (calls s0) = Some (m_frameIndex s0)"
    by simp_all
  from Frames_ready [OF fs] I have "ready s" by simp
  then have i: "m_frameIndex s = 0 \<or> m_frameIndex s = 1"
    and b: "m_backBufferRenderTarget s = [Some 0, Some 1]"
    and v: "renderTargetViews s = [0 \<mapsto> Some 0, 1 \<mapsto> Some 1]"
    by (auto simp: ready_def FRAME_BUFFERS_def)
  from i b show "m_backBufferRenderTarget s ! m_frameIndex s = Some (m_frameIndex s)" by auto
  from i v show "renderTargetViews s (m_frameIndex s) = Some (Some (m_frameIndex s))" by auto
  from Frames_log [OF fs _ t r] I
  show "track (recorded (calls s)) presentable = Some presentable" by simp
qed

theorem barriers_around_the_frame_witness:
  "\<exists>s s'. Session startup0 [frame1] = Inr s \<and> Render frame0 s = Inr s' \<and>
     m_frameIndex s = 1 \<and> m_backBufferRenderTarget s ! m_frameIndex s = Some 1 \<and>
     renderTargetViews s 1 = Some (Some 1) \<and>
     track (recorded (calls s)) presentable = Some presentable \<and>
     track (recorded (calls s')) presentable = Some presentable \<and>
     recorded (calls s') = recorded (calls s) @
       [SetRootSignature, RSSetViewports, RSSetScissorRects,
        ResourceBarrier (Some 1) D3D12_RESOURCE_STATE_PRESENT D3D12_RESOURCE_STATE_RENDER_TARGET,
        OMSetRenderTargets 1, ClearRenderTargetView 1,
        IASetPrimitiveTopology, SetRootDescriptorTable 1, BindBuffers 0 1, Draw,
        ResourceBarrier (Some 1) D3D12_RESOURCE_STATE_RENDER_TARGET D3D12_RESOURCE_STATE_PRESENT]"
proof -
  have "list_all frame_ok ([frame1] @ [frame0])"
    by (simp add: frame_ok_def frame0_def frame1_def)
  from Session_returns [OF this, of 0] obtain s s' where
    s: "Session startup0 [frame1] = Inr s" and r: "Render frame0 s = Inr s'"
    and s': "Session startup0 ([frame1] @ [frame0]) = Inr s'"
    unfolding Session_snoc by (auto simp: startup0_def)
  have i: "m_frameIndex s = 1"
  proof -
    from s obtain s0 where "Initialize startup0 D3D_new = Inr s0" "Frames [frame1] s0 = Inr s"
      by (auto simp: Session_Inr)
    from Frames_ready [OF this(2)] Initialize_new [OF this(1)] show ?thesis
      by (simp add: FRAME_BUFFERS_def)
  qed
  note A = barriers_around_the_frame [of frame0 s s' startup0 "[frame1]"]
  note B = barriers_around_the_frame [of frame0 s' s' startup0 "[frame1] @ [frame0]"]
  from A r obtain rest where
    "calls s' = calls s @ [AllocatorReset, ListReset] @
         map Record
           [SetRootSignature, RSSetViewports, RSSetScissorRects,
            ResourceBarrier (m_backBufferRenderTarget s ! m_frameIndex s)
              D3D12_RESOURCE_STATE_PRESENT D3D12_RESOURCE_STATE_RENDER_TARGET,
            OMSetRenderTargets (m_frameIndex s), ClearRenderTargetView (m_frameIndex s),
            IASetPrimitiveTopology, SetRootDescriptorTable 1, BindBuffers 0 (m_frameIndex s), Draw,
            ResourceBarrier (m_backBufferRenderTarget s ! m_frameIndex s)
              D3D12_RESOURCE_STATE_RENDER_TARGET D3D12_RESOURCE_STATE_PRESENT] @
         [Close,
          ExecuteCommandLists
            [SetRootSignature, RSSetViewports, RSSetScissorRects,
             ResourceBarrier (m_backBufferRenderTarget s ! m_frameIndex s)
               D3D12_RESOURCE_STATE_PRESENT D3D12_RESOURCE_STATE_RENDER_TARGET,
             OMSetRenderTargets (m_frameIndex s), ClearRenderTargetView (m_frameIndex s),
             IASetPrimitiveTopology, SetRootDescriptorTable 1, BindBuffers 0 (m_frameIndex s), Draw,
             ResourceBarrier (m_backBufferRenderTarget s ! m_frameIndex s)
               D3D12_RESOURCE_STATE_RENDER_TARGET D3D12_RESOURCE_STATE_PRESENT],
          Present 0 0] @ rest" "recorded rest = []"
    by blast
  then have rec: "recorded (calls s') = recorded (calls s) @
       [SetRootSignature, RSSetViewports, RSSetScissorRects,
        ResourceBarrier (m_backBufferRenderTarget s ! m_frameIndex s)
          D3D12_RESOURCE_STATE_PRESENT D3D12_RESOURCE_STATE_RENDER_TARGET,
        OMSetRenderTargets (m_frameIndex s), ClearRenderTargetView (m_frameIndex s),
        IASetPrimitiveTopology, SetRootDescriptorTable 1, BindBuffers 0 (m_frameIndex s), Draw,
        ResourceBarrier (m_backBufferRenderTarget s ! m_frameIndex s)
          D3D12_RESOURCE_STATE_RENDER_TARGET D3D12_RESOURCE_STATE_PRESENT]"
    by simp
  from A s i have a: "m_backBufferRenderTarget s ! m_frameIndex s = Some 1"
    "renderTargetViews s 1 = Some (Some 1)"
    "track (recorded (calls s)) presentable = Some presentable"
    by simp_all
  from B s' have b: "track (recorded (calls s')) presentable = Some presentable"
    by simp
  from a(1) i have a': "m_backBufferRenderTarget s ! 1 = Some 1" by simp
  from rec i a' have rec': "recorded (calls s') = recorded (calls s) @
       [SetRootSignature, RSSetViewports, RSSetScissorRects,
        ResourceBarrier (Some 1) D3D12_RESOURCE_STATE_PRESENT D3D12_RESOURCE_STATE_RENDER_TARGET,
        OMSetRenderTargets 1, ClearRenderTargetView 1,
        IASetPrimitiveTopology, SetRootDescriptorTable 1, BindBuffers 0 1, Draw,
        ResourceBarrier (Some 1) D3D12_RESOURCE_STATE_RENDER_TARGET D3D12_RESOURCE_STATE_PRESENT]"
    by simp
  from s r i a' a(2,3) b rec' show ?thesis
    by (intro exI [of _ s] exI [of _ s']) simp
qed

section \<open>Shutdown\<close>

text \<open>
  C8. \<^verbatim>\<open>ShutDown\<close> first signals the fence and waits: its releases (the event handle,
  the textures, the device) are the last three calls, made in a state where the
  completed value of the fence has reached the value signalled last. On an object with
  a device it returns.
\<close>

theorem ShutDown_waits_before_release:
  "(m_device s \<noteq> None \<longrightarrow> (\<exists>s'. ShutDown k s = Inr s')) \<and>
   (ShutDown k s = Inr s' \<longrightarrow>
      (\<exists>s1 c. WaitForPreviousFrame k s = Inr s1 \<and>
         calls s1 = calls s @ Signal (m_fenceValue s) # fence_calls c (m_fenceValue s) \<and>
         last (signals (calls s1)) = m_fenceValue s \<and>
         m_fenceValue s \<le> completedValue s1 \<and>
         s' = log DeviceRelease (log TextureRelease (log CloseHandle s1)) \<and>
         calls s' = calls s1 @ [CloseHandle, TextureRelease, DeviceRelease] \<and>
         completedValue s' = completedValue s1))"
proof (intro conjI impI)
  assume d: "m_device s \<noteq> None"
  from WaitForPreviousFrame_returns [of k s] obtain s1 where
    "WaitForPreviousFrame k s = Inr s1" "m_device s1 = m_device s" by blast
  with d show "\<exists>s'. ShutDown k s = Inr s'"
    by (simp add: ShutDown_def Let_def)
next
  assume "ShutDown k s = Inr s'"
  then obtain s1 where w: "WaitForPreviousFrame k s = Inr s1"
    and s': "s' = log DeviceRelease (log TextureRelease (log CloseHandle s1))"
    by (auto simp: ShutDown_def Let_def and_then_eq_Inr split: if_splits)
  from WaitForPreviousFrame_Inr [OF w] obtain c where
    c: "calls s1 = calls s @ Signal (m_fenceValue s) # fence_calls c (m_fenceValue s)"
    and v: "m_fenceValue s \<le> completedValue s1"
    by blast
  from c have "signals (calls s1) = signals (calls s) @ [m_fenceValue s]" by simp
  then have "last (signals (calls s1)) = m_fenceValue s" by simp
  with w s' c v show "\<exists>s1 c. WaitForPreviousFrame k s = Inr s1 \<and>
         calls s1 = calls s @ Signal (m_fenceValue s) # fence_calls c (m_fenceValue s) \<and>
         last (signals (calls s1)) = m_fenceValue s \<and>
         m_fenceValue s \<le> completedValue s1 \<and>
         s' = log DeviceRelease (log TextureRelease (log CloseHandle s1)) \<and>
         calls s' = calls s1 @ [CloseHandle, TextureRelease, DeviceRelease] \<and>
         completedValue s' = completedValue s1"
    by (intro exI [of _ s1] exI [of _ c]) simp
qed

theorem ShutDown_waits_before_release_witness:
  "\<exists>s s'. Session startup0 [frame0] = Inr s \<and> m_device s \<noteq> None \<and> ShutDown 0 s = Inr s' \<and>
     (\<exists>s1. WaitForPreviousFrame 0 s = Inr s1 \<and> last (signals (calls s1)) = 3 \<and>
        3 \<le> completedValue s1 \<and> calls s' = calls s1 @ [CloseHandle, TextureRelease, DeviceRelease])"
proof -
  have "list_all frame_ok [frame0]"
    by (simp add: frame_ok_def frame0_def)
  from Session_returns [OF this, of 0] obtain s where s: "Session startup0 [frame0] = Inr s"
    by (auto simp: startup0_def)
  then obtain s0 where 0: "Initialize startup0 D3D_new = Inr s0" and fs: "Frames [frame0] s0 = Inr s"
    by (auto simp: Session_Inr)
  from Frames_ready [OF fs] Frames_projections [OF fs] Initialize_new [OF 0]
  have d: "m_device s \<noteq> None" and v: "m_fenceValue s = 3"
    by (simp_all add: ready_def)
  from ShutDown_waits_before_release [of s 0] d obtain s' where s': "ShutDown 0 s = Inr s'"
    by blast
  from ShutDown_waits_before_release [of s 0 s'] s' v s d show ?thesis
    by (intro exI [of _ s] exI [of _ s']) auto
qed

section \<open>Startup without a device\<close>

lemma FindAndCreateDevice_result:
  assumes "SUCCEEDED (CreateDXGIFactory1_hr p)"
  shows "fst (FindAndCreateDevice p s) =
       (case find (qualifies p) (adapters p) of
          Some a \<Rightarrow> True
        | None \<Rightarrow> SUCCEEDED (D3D12CreateDevice_hr p None D3D_FEATURE_LEVEL_11_1))"
proof -
  define s0 where "s0 = log (CreateDXGIFactory1 (CreateDXGIFactory1_hr p)) (s\<lparr>m_factory := True\<rparr>)"
  note L = adapter_loop_drop [of 0 p s0, simplified]
  show ?thesis
  proof (cases "find (qualifies p) (adapters p)")
    case None
    with assms L show ?thesis
      by (simp add: FindAndCreateDevice_unfold Let_def s0_def [symmetric] FAILED_iff)
  next
    case (Some a)
    then have "qualifies p a" by (auto simp: find_Some_iff)
    with Some assms L show ?thesis
      by (simp add: FindAndCreateDevice_unfold Let_def s0_def [symmetric] FAILED_iff qualifies_def)
  qed
qed

text \<open>
  C6. On a machine where the factory exists, no adapter is enumerated and the device
  of feature level 11.1 cannot be created either, \<^verbatim>\<open>FindAndCreateDevice\<close> returns false
  and leaves \<^verbatim>\<open>m_device\<close> null. \<^verbatim>\<open>Initialize\<close> drops the result and goes on to
  \<^verbatim>\<open>CreateCommandsAndSwapChain\<close>, whose first call, \<^verbatim>\<open>m_device->CreateCommandQueue\<close>,
  goes through the null pointer.
\<close>

theorem Initialize_without_device:
  "\<not> fst (FindAndCreateDevice (machine startup_none) D3D_new) \<and>
   m_device (snd (FindAndCreateDevice (machine startup_none) D3D_new)) = None \<and>
   CreateCommandsAndSwapChain startup_none (snd (FindAndCreateDevice (machine startup_none) D3D_new)) =
     Inl NullPointerCall \<and>
   Initialize startup_none D3D_new = Inl NullPointerCall"
proof -
  have m: "machine startup_none = machine_none"
    by (simp add: startup_none_def)
  have f: "SUCCEEDED (CreateDXGIFactory1_hr machine_none)"
    by (simp add: machine_none_def SUCCEEDED_def)
  from FindAndCreateDevice_result [OF f, of D3D_new] FindAndCreateDevice_device [OF f, of D3D_new]
  have r: "\<not> fst (FindAndCreateDevice machine_none D3D_new)"
    "m_device (snd (FindAndCreateDevice machine_none D3D_new)) = None"
    by (simp_all add: machine_none_def SUCCEEDED_def)
  then show ?thesis
    by (simp add: m Initialize_def CreateCommandsAndSwapChain_def)
qed

section \<open>The fence counter\<close>

lemma word64_of_nat_less:
  "x < y \<Longrightarrow> y < 2 ^ 64 \<Longrightarrow> (of_nat x :: 64 word) < of_nat y"
  by (simp add: word_less_nat_alt unat_of_nat take_bit_nat_eq_self)

lemma signals_sorted:
  assumes "n < 2 ^ 64"
  shows "sorted_wrt (<) (map of_nat [1..<Suc n] :: 64 word list)"
proof -
  have "sorted_wrt (\<lambda>x y. (of_nat x :: 64 word) < of_nat y) [1..<Suc n]"
  proof (rule sorted_wrt_mono_rel [where P = "(<)"])
    fix x y assume "x \<in> set [1..<Suc n]" "y \<in> set [1..<Suc n]" "x < y"
    with assms show "(of_nat x :: 64 word) < of_nat y"
      by (intro word64_of_nat_less) auto
  qed (rule sorted_wrt_upt)
  then show ?thesis by (simp add: sorted_wrt_map)
qed

lemma signals_wrap:
  assumes "n = 2 ^ 64"
  shows "\<not> sorted_wrt (<) (map of_nat [1..<Suc n] :: 64 word list)"
proof
  assume "sorted_wrt (<) (map of_nat [1..<Suc n] :: 64 word list)"
  then have "(map of_nat [1..<Suc n] :: 64 word list) ! 0 < map of_nat [1..<Suc n] ! (n - 1)"
    by (rule sorted_wrt_nth_less) (simp_all add: assms)
  moreover have "(map of_nat [1..<Suc n] :: 64 word list) ! 0 = 1"
    using assms by (simp del: upt_Suc)
  moreover have "(map of_nat [1..<Suc n] :: 64 word list) ! (n - 1) = of_nat n"
    using assms by (simp del: upt_Suc)
  moreover have "(of_nat n :: 64 word) = 0"
    by (simp add: assms)
  ultimately show False by simp
qed

lemma Session_signals:
  assumes "Session e fs = Inr t"
  shows "signals (calls t) = map of_nat [1..<Suc (Suc (length fs))]"
proof -
  from assms obtain s0 where 0: "Initialize e D3D_new = Inr s0" and fs: "Frames fs s0 = Inr t"
    by (auto simp: Session_Inr)
  from Frames_projections [OF fs] Initialize_new [OF 0]
  have "signals (calls t) = [1] @ map (\<lambda>j. 2 + of_nat j) [0..<length fs]"
    by simp
  also have "map (\<lambda>j. 2 + of_nat j :: 64 word) [0..<length fs] =
      map of_nat [Suc (Suc 0)..<Suc (Suc (length fs))]"
    by (induction fs rule: rev_induct) simp_all
  also have "[1] @ map of_nat [Suc (Suc 0)..<Suc (Suc (length fs))] =
      (map of_nat [1..<Suc (Suc (length fs))] :: 64 word list)"
    by (simp add: upt_conv_Cons del: upt_Suc)
  finally show ?thesis .
qed


lemma list_all_replicate: "P x \<Longrightarrow> list_all P (replicate n x)"
  by (induction n) simp_all

text \<open>
  C1. Every call of \<^verbatim>\<open>WaitForPreviousFrame\<close> returns; it signals the fence with the
  counter, adds one to the counter (a \<^verbatim>\<open>UINT64\<close>), reads the fence and waits when the
  value read is below the one signalled; when it returns, the completed value is at
  least the value signalled. The values signalled in a session of \<open>n\<close> frames are
  \<open>1, 2, \<dots>, n + 1\<close> as 64-bit values; they are strictly increasing as long as
  \<open>n + 1 < 2 ^ 64\<close>.
\<close>

theorem fence_signals_increase:
  "(\<exists>s' c. WaitForPreviousFrame k s = Inr s' \<and>
      calls s' = calls s @ Signal (m_fenceValue s) # fence_calls c (m_fenceValue s) \<and>
      m_fenceValue s' = m_fenceValue s + 1 \<and>
      m_fenceValue s \<le> completedValue s') \<and>
   (Session e fs = Inr t \<longrightarrow>
      signals (calls t) = map of_nat [1..<Suc (Suc (length fs))] \<and>
      (length fs + 1 < 2 ^ 64 \<longrightarrow> sorted_wrt (<) (signals (calls t))))"
proof (intro conjI impI)
  from WaitForPreviousFrame_returns [of k s]
  show "\<exists>s' c. WaitForPreviousFrame k s = Inr s' \<and>
      calls s' = calls s @ Signal (m_fenceValue s) # fence_calls c (m_fenceValue s) \<and>
      m_fenceValue s' = m_fenceValue s + 1 \<and>
      m_fenceValue s \<le> completedValue s'"
    by blast
next
  assume a: "Session e fs = Inr t"
  from Session_signals [OF a]
  show s: "signals (calls t) = map of_nat [1..<Suc (Suc (length fs))]" .
  assume "length fs + 1 < 2 ^ 64"
  then have "Suc (length fs) < 2 ^ 64" by simp
  from signals_sorted [OF this] show "sorted_wrt (<) (signals (calls t))"
    unfolding s .
qed

theorem fence_signals_increase_witness:
  "\<exists>t. Session startup0 [frame0, frame1] = Inr t \<and> signals (calls t) = [1, 2, 3] \<and>
     sorted_wrt (<) (signals (calls t))"
proof -
  have "list_all frame_ok [frame0, frame1]"
    by (simp add: frame_ok_def frame0_def frame1_def)
  from Session_returns [OF this, of 0] obtain t where t: "Session startup0 [frame0, frame1] = Inr t"
    by (auto simp: startup0_def)
  from fence_signals_increase [of 0 t startup0 "[frame0, frame1]" t] t
  have "signals (calls t) = map of_nat [1..<Suc (Suc (length [frame0, frame1]))]"
    "sorted_wrt (<) (signals (calls t))"
    by simp_all
  moreover have "(map of_nat [1..<Suc (Suc (length [frame0, frame1]))] :: 64 word list) = [1, 2, 3]"
    by (simp add: upt_conv_Cons del: upt_Suc)
  ultimately show ?thesis using t by auto
qed

text \<open>
  The bound is that of the \<^verbatim>\<open>UINT64\<close>: a session would need \<open>2 ^ 64 - 1\<close> frames for
  the counter to come back to 0.
\<close>

lemma fence_signals_wrap:
  "\<not> isl (Session startup0 (replicate (2 ^ 64 - 1) frame1)) \<and>
   \<not> sorted_wrt (<) (signals (calls (projr (Session startup0 (replicate (2 ^ 64 - 1) frame1)))))"
proof -
  define N :: nat where "N = 2 ^ 64 - 1"
  have N: "Suc N = 2 ^ 64" by (simp add: N_def)
  have "list_all frame_ok (replicate N frame1)"
    by (rule list_all_replicate) (simp add: frame_ok_def frame1_def)
  from Session_returns [OF this, of 0] obtain t where
    t: "Session startup0 (replicate N frame1) = Inr t"
    by (auto simp: startup0_def)
  from Session_signals [OF t] have "signals (calls t) = map of_nat [1..<Suc (Suc N)]"
    by simp
  with signals_wrap [OF N [symmetric, THEN sym]] have "\<not> sorted_wrt (<) (signals (calls t))"
    by simp
  with t show ?thesis
    unfolding N_def by simp
qed

section \<open>Resets and the wait before them\<close>

lemma BeginScene_queue: "BeginScene f s = Inr s1 \<Longrightarrow> queue s1 = queue s"
  unfolding BeginScene_def Let_def backBufferRenderTarget_def GetShaders_def
  by (auto simp: and_then_eq_Inr split: option.splits if_splits)

lemma Session_idle:
  assumes "Session e fs = Inr s" "length fs + 1 < 2 ^ 64"
  shows "idle s \<and> ready s \<and> m_fenceValue s = of_nat (length fs + 2)"
proof -
  from assms obtain s0 where 0: "Initialize e D3D_new = Inr s0" and fs: "Frames fs s0 = Inr s"
    by (auto simp: Session_Inr)
  note I = Initialize_new [OF 0]
  have "idle s"
  proof (rule Frames_idle [OF fs])
    from I show "idle s0" by simp
    from I show "0 < unat (m_fenceValue s0)" by simp
    from I assms(2) show "unat (m_fenceValue s0) + length fs \<le> 2 ^ 64" by simp
  qed
  with Frames_ready [OF fs] Frames_projections [OF fs] I show ?thesis
    by simp
qed

text \<open>
  C2. A frame resets the allocator and the list, records, submits, presents, and then
  signals the fence and waits, in this order; \<^verbatim>\<open>Initialize\<close> ends with its submission
  followed by the signal and the wait. In a session of fewer than \<open>2 ^ 64 - 1\<close>
  frames, the fence has then reached the value signalled last and nothing submitted is
  left in the queue: the resets of the next frame find the queue empty, and during
  the next frame the queue holds the one submission of that frame and its presentation
  when the wait begins.
\<close>

theorem reset_after_wait:
  "(Render f s = Inr s' \<longrightarrow>
      (\<exists>c. calls s' = calls s @ [AllocatorReset, ListReset] @
         map Record (frame_commands (m_frameIndex s) (m_backBufferRenderTarget s ! m_frameIndex s)) @
         [Close,
          ExecuteCommandLists (frame_commands (m_frameIndex s) (m_backBufferRenderTarget s ! m_frameIndex s)),
          Present 0 0, Signal (m_fenceValue s)] @
         fence_calls c (m_fenceValue s) @ [GetCurrentBackBufferIndex (m_frameIndex s')]) \<and>
      m_fenceValue s \<le> completedValue s') \<and>
   (Initialize e D3D_new = Inr s \<longrightarrow>
      (\<exists>new c. calls s = new @ startup_calls @ Signal 1 # fence_calls c 1 \<and>
         list_all device_call new)) \<and>
   (Session e fs = Inr s \<and> length fs + 1 < 2 ^ 64 \<longrightarrow>
      queue s = [] \<and> completedValue s = last (signals (calls s)) \<and>
      (\<forall>f s1. BeginScene f s = Inr s1 \<longrightarrow> queue s1 = []) \<and>
      (\<forall>f s'. Render f s = Inr s' \<longrightarrow>
         (\<exists>s1 s2. WaitForPreviousFrame (progress f) s1 = Inr s2 \<and>
            queue s1 =
              [QExecute (frame_commands (m_frameIndex s) (m_backBufferRenderTarget s ! m_frameIndex s)),
               QPresent] \<and>
            queue s' = queue s2) \<and>
         (length fs + 2 < 2 ^ 64 \<longrightarrow> queue s' = [])))"
proof (intro conjI impI allI)
  assume r: "Render f s = Inr s'"
  from Render_Inr [OF r]
  show "\<exists>c. calls s' = calls s @ [AllocatorReset, ListReset] @
         map Record (frame_commands (m_frameIndex s) (m_backBufferRenderTarget s ! m_frameIndex s)) @
         [Close,
          ExecuteCommandLists (frame_commands (m_frameIndex s) (m_backBufferRenderTarget s ! m_frameIndex s)),
          Present 0 0, Signal (m_fenceValue s)] @
         fence_calls c (m_fenceValue s) @ [GetCurrentBackBufferIndex (m_frameIndex s')]"
    by auto
  from Render_Inr [OF r] show "m_fenceValue s \<le> completedValue s'" by simp
next
  assume "Initialize e D3D_new = Inr s"
  from Initialize_Inr [OF this]
  show "\<exists>new c. calls s = new @ startup_calls @ Signal 1 # fence_calls c 1 \<and>
         list_all device_call new"
    by (simp add: D3D_new_def)
next
  assume a: "Session e fs = Inr s \<and> length fs + 1 < 2 ^ 64"
  then have i: "idle s" and v: "m_fenceValue s = of_nat (length fs + 2)"
    using Session_idle [of e fs s] by simp_all
  from i show q: "queue s = []" by (simp add: idle_def)
  from a have a1: "Session e fs = Inr s" by simp
  have "last (signals (calls s)) = of_nat (length fs + 1)"
    unfolding Session_signals [OF a1] by (simp add: last_map del: upt_Suc)
  with i v show "completedValue s = last (signals (calls s))"
    by (simp add: idle_def)
  show "queue s1 = []" if "BeginScene f s = Inr s1" for f s1
    using BeginScene_queue [OF that] q by simp
  show "\<exists>s1 s2. WaitForPreviousFrame (progress f) s1 = Inr s2 \<and>
            queue s1 =
              [QExecute (frame_commands (m_frameIndex s) (m_backBufferRenderTarget s ! m_frameIndex s)),
               QPresent] \<and>
            queue s' = queue s2"
    if "Render f s = Inr s'" for f s'
    using Render_queue [OF that] q by auto
  show "queue s' = []" if r: "Render f s = Inr s'" and l: "length fs + 2 < 2 ^ 64" for f s'
  proof -
    from a r have "Session e (fs @ [f]) = Inr s'"
      unfolding Session_snoc by blast
    from Session_idle [OF this] l show ?thesis
      by (simp add: idle_def)
  qed
qed


theorem reset_after_wait_witness:
  "\<exists>s s'. Session startup0 [frame0] = Inr s \<and> Render frame1 s = Inr s' \<and>
     queue s = [] \<and> completedValue s = 2 \<and> last (signals (calls s)) = 2 \<and>
     queue s' = [] \<and> m_fenceValue s \<le> completedValue s'"
proof -
  have "list_all frame_ok ([frame0] @ [frame1])"
    by (simp add: frame_ok_def frame0_def frame1_def)
  from Session_returns [OF this, of 0] obtain s s' where
    s: "Session startup0 [frame0] = Inr s" and r: "Render frame1 s = Inr s'"
    unfolding Session_snoc by (auto simp: startup0_def)
  note T = reset_after_wait [of frame1 s s' startup0 "[frame0]"]
  from T r have 1: "m_fenceValue s \<le> completedValue s'" by blast
  from T s have 2: "queue s = []" "completedValue s = last (signals (calls s))" by simp_all
  from T s r have 3: "queue s' = []" by simp
  from Session_signals [OF s] have 4: "last (signals (calls s)) = 2"
    by (simp add: upt_conv_Cons del: upt_Suc)
  from s r 1 2 3 4 show ?thesis
    by (intro exI [of _ s] exI [of _ s']) simp
qed

text \<open>
  The bound is again that of the \<^verbatim>\<open>UINT64\<close>: only the frame that signals 0, after
  \<open>2 ^ 64 - 2\<close> others, finds no value of the fence below the one it signals.
\<close>

lemma reset_at_wrap:
  "\<not> isl (Session startup0 (replicate (2 ^ 64) frame0)) \<and>
   queue (projr (Session startup0 (replicate (2 ^ 64 - 1) frame0))) =
     [QExecute (frame_commands 0 (Some 0)), QPresent, QSignal 0]"
proof -
  define M :: nat where "M = 2 ^ 64 - 2"
  have M: "M + 2 = 2 ^ 64" "Suc M = 2 ^ 64 - 1" "Suc (Suc M) = 2 ^ 64" "M mod 2 = 0"
    by (simp_all add: M_def)
  have ok: "list_all frame_ok (replicate n frame0)" for n
    by (rule list_all_replicate) (simp add: frame_ok_def frame0_def)
  from Session_returns [OF ok, of 0 "Suc (Suc M)"] obtain u where
    u: "Session startup0 (replicate (Suc (Suc M)) frame0) = Inr u"
    by (auto simp: startup0_def)
  from Session_returns [OF ok, of 0 "Suc M"] obtain t where
    t: "Session startup0 (replicate (Suc M) frame0) = Inr t"
    by (auto simp: startup0_def)
  then obtain s where s: "Session startup0 (replicate M frame0) = Inr s"
    and r: "Render frame0 s = Inr t"
    unfolding replicate_Suc [of M] replicate_append_same [symmetric] Session_snoc by blast
  from M(1) have "length (replicate M frame0) + 1 < 2 ^ 64" by simp
  from Session_idle [OF s this] M(1) have i: "idle s" "ready s" and v: "m_fenceValue s = 0"
    by simp_all
  from s obtain s0 where 0: "Initialize startup0 D3D_new = Inr s0"
    and fs: "Frames (replicate M frame0) s0 = Inr s"
    by (auto simp: Session_Inr)
  from Frames_ready [OF fs] Initialize_new [OF 0] M(4) have x: "m_frameIndex s = 0"
    by (simp add: FRAME_BUFFERS_def)
  from i(2) have b: "m_backBufferRenderTarget s ! 0 = Some 0"
    by (simp add: ready_def)
  from Render_wrap [OF r i(1) v] x b
  have "queue t = [QExecute (frame_commands 0 (Some 0)), QPresent, QSignal 0]"
    by (simp add: frame0_def)
  with t u show ?thesis
    unfolding M(2,3) by simp
qed

end
